theory Spec2Isabelle
  imports Main "HOL-Library.Word" "HOL-Library.Sublist"
begin

unbundle bit_operations_syntax

section \<open>Data model\<close>

text \<open>
  A Python \<open>str\<close> is a sequence of Unicode code points, a \<open>bytes\<close> object a sequence
  of octets. String literals of the source are written with \<open>py\<close>.
\<close>

type_synonym pystr = "nat list"

type_synonym byte = "8 word"

definition py :: "string \<Rightarrow> pystr" where
  "py s = map of_char s"

section \<open>The content normalizer\<close>

text \<open>
  \<open>str.isspace\<close> of one code point. Both \<open>\s\<close> of the \<open>re\<close> module (on a \<open>str\<close>
  pattern) and \<open>str.strip()\<close> without arguments use this test.
\<close>

definition isspace :: "nat \<Rightarrow> bool" where
  "isspace c \<longleftrightarrow>
     (0x09 \<le> c \<and> c \<le> 0x0D) \<or> (0x1C \<le> c \<and> c \<le> 0x1F) \<or> c = 0x20 \<or>
     c = 0x85 \<or> c = 0xA0 \<or> c = 0x1680 \<or> (0x2000 \<le> c \<and> c \<le> 0x200A) \<or>
     c = 0x2028 \<or> c = 0x2029 \<or> c = 0x202F \<or> c = 0x205F \<or> c = 0x3000"

text \<open>
  \<^verbatim>\<open>re.sub(r'\s+', ' ', text)\<close>: scanning from the left, a whitespace character starts a
  match, the greedy \<open>+\<close> takes the whole run, and the match is replaced by one space.
\<close>

function re_sub_ws :: "pystr \<Rightarrow> pystr" where
  "re_sub_ws [] = []"
| "re_sub_ws (c # cs) =
     (if isspace c then 0x20 # re_sub_ws (dropWhile isspace cs) else c # re_sub_ws cs)"
  by pat_completeness auto
termination
  by (relation "measure length") (auto simp: length_dropWhile_le le_imp_less_Suc)

text \<open>\<^verbatim>\<open>text.strip()\<close>: whitespace is dropped at the left end, then at the right end.\<close>

definition rstrip :: "pystr \<Rightarrow> pystr" where
  "rstrip s = rev (dropWhile isspace (rev s))"

definition strip :: "pystr \<Rightarrow> pystr" where
  "strip s = rstrip (dropWhile isspace s)"

text \<open>The method \<open>clean_string\<close>, which each of the three loader classes defines.\<close>

definition PdfFileLoader_clean_string :: "pystr \<Rightarrow> pystr" where
  "PdfFileLoader_clean_string text = (let text = re_sub_ws text; text = strip text in text)"

definition TextFileLoader_clean_string :: "pystr \<Rightarrow> pystr" where
  "TextFileLoader_clean_string text = (let text = re_sub_ws text; text = strip text in text)"

definition UrlLoader_clean_string :: "pystr \<Rightarrow> pystr" where
  "UrlLoader_clean_string text = (let text = re_sub_ws text; text = strip text in text)"

text \<open>\<^verbatim>\<open>sep.join(xs)\<close>.\<close>

fun join :: "pystr \<Rightarrow> pystr list \<Rightarrow> pystr" where
  "join sep [] = []"
| "join sep [x] = x"
| "join sep (x # y # ys) = x @ sep @ join sep (y # ys)"

subsection \<open>The normalizer as the specification words it\<close>

text \<open>
  The words of a string are its maximal runs of characters that are not whitespace, in
  order. Replacing every maximal whitespace run by one space and removing the whitespace
  at both ends leaves exactly the words, separated by single spaces.
\<close>

function ws_words :: "pystr \<Rightarrow> pystr list" where
  "ws_words [] = []"
| "ws_words (c # cs) =
     (if isspace c then ws_words cs
      else (c # takeWhile (\<lambda>d. \<not> isspace d) cs) # ws_words (dropWhile (\<lambda>d. \<not> isspace d) cs))"
  by pat_completeness auto
termination
  by (relation "measure length") (auto simp: length_dropWhile_le le_imp_less_Suc)

definition normalizer_spec :: "pystr \<Rightarrow> pystr" where
  "normalizer_spec s = join [0x20] (ws_words s)"

section \<open>Errors\<close>

text \<open>
  The exceptions the program can end with. \<open>Propagated e\<close> is an exception \<open>e\<close> raised
  inside an external collaborator (PyMuPDF, requests, BeautifulSoup, the question engine),
  which the program never catches. \<open>ValueError\<close>, \<open>AttributeError\<close>, \<open>TypeError\<close> and
  \<open>NameError\<close> carry their message.
\<close>

datatype 'e error =
    Propagated 'e
  | UnicodeDecodeError
  | UnicodeEncodeError
  | ValueError pystr
  | AttributeError pystr
  | TypeError pystr
  | NameError pystr

section \<open>UTF-8\<close>

text \<open>
  \<^verbatim>\<open>bytes.decode('utf-8')\<close> and \<^verbatim>\<open>str.encode()\<close> with the default strict error handler,
  on the octets' values. The decoder accepts exactly the well-formed byte sequences of the
  Unicode standard (no overlong forms, no surrogates, nothing above U+10FFFF); the
  encoder refuses surrogates.
\<close>

definition is_cont :: "nat \<Rightarrow> bool" where
  "is_cont b \<longleftrightarrow> 0x80 \<le> b \<and> b \<le> 0xBF"

fun utf8_decode_seq :: "nat list \<Rightarrow> (nat \<times> nat list) option" where
  "utf8_decode_seq [] = None"
| "utf8_decode_seq (b0 # bs) =
     (if b0 < 0x80 then Some (b0, bs)
      else if 0xC2 \<le> b0 \<and> b0 \<le> 0xDF then
        (case bs of
           b1 # r \<Rightarrow> if is_cont b1 then Some ((b0 - 0xC0) * 0x40 + (b1 - 0x80), r) else None
         | _ \<Rightarrow> None)
      else if 0xE0 \<le> b0 \<and> b0 \<le> 0xEF then
        (case bs of
           b1 # b2 # r \<Rightarrow>
             if is_cont b1 \<and> is_cont b2 \<and> (b0 = 0xE0 \<longrightarrow> 0xA0 \<le> b1) \<and> (b0 = 0xED \<longrightarrow> b1 \<le> 0x9F)
             then Some ((b0 - 0xE0) * 0x1000 + (b1 - 0x80) * 0x40 + (b2 - 0x80), r) else None
         | _ \<Rightarrow> None)
      else if 0xF0 \<le> b0 \<and> b0 \<le> 0xF4 then
        (case bs of
           b1 # b2 # b3 # r \<Rightarrow>
             if is_cont b1 \<and> is_cont b2 \<and> is_cont b3 \<and> (b0 = 0xF0 \<longrightarrow> 0x90 \<le> b1) \<and> (b0 = 0xF4 \<longrightarrow> b1 \<le> 0x8F)
             then Some ((b0 - 0xF0) * 0x40000 + (b1 - 0x80) * 0x1000 + (b2 - 0x80) * 0x40 + (b3 - 0x80), r)
             else None
         | _ \<Rightarrow> None)
      else None)"

lemma utf8_decode_seq_length: "utf8_decode_seq bs = Some (c, r) \<Longrightarrow> length r < length bs"
  by (cases bs) (auto split: if_splits list.splits)

function utf8_decode_nat :: "nat list \<Rightarrow> pystr option" where
  "utf8_decode_nat bs =
     (if bs = [] then Some []
      else case utf8_decode_seq bs of
             None \<Rightarrow> None
           | Some (c, r) \<Rightarrow> (case utf8_decode_nat r of None \<Rightarrow> None | Some s \<Rightarrow> Some (c # s)))"
  by pat_completeness auto
termination
  by (relation "measure length") (auto dest: utf8_decode_seq_length)

declare utf8_decode_nat.simps [simp del]

lemma utf8_decode_nat_Nil [simp]: "utf8_decode_nat [] = Some []"
  by (simp add: utf8_decode_nat.simps)

lemma utf8_decode_nat_step:
  "bs \<noteq> [] \<Longrightarrow> utf8_decode_nat bs =
     (case utf8_decode_seq bs of
        None \<Rightarrow> None
      | Some (c, r) \<Rightarrow> (case utf8_decode_nat r of None \<Rightarrow> None | Some s \<Rightarrow> Some (c # s)))"
  by (subst utf8_decode_nat.simps) simp

definition utf8_decode :: "byte list \<Rightarrow> 'e error + pystr" where
  "utf8_decode bs =
     (case utf8_decode_nat (map unat bs) of None \<Rightarrow> Inl UnicodeDecodeError | Some s \<Rightarrow> Inr s)"

definition utf8_encode_char :: "nat \<Rightarrow> nat list option" where
  "utf8_encode_char c =
     (if c < 0x80 then Some [c]
      else if c < 0x800 then Some [0xC0 + c div 0x40, 0x80 + c mod 0x40]
      else if 0xD800 \<le> c \<and> c \<le> 0xDFFF then None
      else if c < 0x10000 then Some [0xE0 + c div 0x1000, 0x80 + c div 0x40 mod 0x40, 0x80 + c mod 0x40]
      else if c < 0x110000 then
        Some [0xF0 + c div 0x40000, 0x80 + c div 0x1000 mod 0x40, 0x80 + c div 0x40 mod 0x40, 0x80 + c mod 0x40]
      else None)"

fun utf8_encode_nat :: "pystr \<Rightarrow> nat list option" where
  "utf8_encode_nat [] = Some []"
| "utf8_encode_nat (c # cs) =
     (case utf8_encode_char c of
        None \<Rightarrow> None
      | Some bs \<Rightarrow> (case utf8_encode_nat cs of None \<Rightarrow> None | Some r \<Rightarrow> Some (bs @ r)))"

definition utf8_encode :: "pystr \<Rightarrow> 'e error + byte list" where
  "utf8_encode s =
     (case utf8_encode_nat s of None \<Rightarrow> Inl UnicodeEncodeError | Some ns \<Rightarrow> Inr (map of_nat ns))"

section \<open>SHA-256\<close>

text \<open>\<^verbatim>\<open>hashlib.sha256(data).hexdigest()\<close>, as FIPS 180-4 defines the function. The
  standard introduces its constants as the first 32 bits of the fractional parts of the cube
  roots of the first 64 primes (the round constants) and of the square roots of the first 8
  primes (the initial hash value); they are computed here in that way: the integer part of
  the \<open>k\<close>-th root of \<open>p * 2 ^ (32 * k)\<close>, found bit by bit, reduced modulo \<open>2 ^ 32\<close>
  by the conversion to a word.\<close>

fun root_bits :: "nat \<Rightarrow> int \<Rightarrow> nat \<Rightarrow> int \<Rightarrow> int" where
  "root_bits k n 0 r = r"
| "root_bits k n (Suc b) r = root_bits k n b (if (r + 2 ^ b) ^ k \<le> n then r + 2 ^ b else r)"

definition frac_root :: "nat \<Rightarrow> nat \<Rightarrow> 32 word" where
  "frac_root k p = of_int (root_bits k (int p * 2 ^ (32 * k)) 36 0)"

definition first_primes :: "nat list" where
  "first_primes = filter (\<lambda>p. filter (\<lambda>d. p mod d = 0) [2..<p] = []) [2..<312]"

definition sha256_K :: "32 word list" where
  "sha256_K = map (frac_root 3) first_primes"

definition sha256_H0 :: "32 word list" where
  "sha256_H0 = map (frac_root 2) (take 8 first_primes)"

definition rotr :: "nat \<Rightarrow> 32 word \<Rightarrow> 32 word" where
  "rotr n x = (drop_bit n x) OR (push_bit (32 - n) x)"

definition Ch :: "32 word \<Rightarrow> 32 word \<Rightarrow> 32 word \<Rightarrow> 32 word" where
  "Ch x y z = (x AND y) XOR (NOT x AND z)"
definition Maj :: "32 word \<Rightarrow> 32 word \<Rightarrow> 32 word \<Rightarrow> 32 word" where
  "Maj x y z = (x AND y) XOR (x AND z) XOR (y AND z)"
definition Sigma0 :: "32 word \<Rightarrow> 32 word" where
  "Sigma0 x = rotr 2 x XOR rotr 13 x XOR rotr 22 x"
definition Sigma1 :: "32 word \<Rightarrow> 32 word" where
  "Sigma1 x = rotr 6 x XOR rotr 11 x XOR rotr 25 x"
definition sigma0 :: "32 word \<Rightarrow> 32 word" where
  "sigma0 x = rotr 7 x XOR rotr 18 x XOR drop_bit 3 x"
definition sigma1 :: "32 word \<Rightarrow> 32 word" where
  "sigma1 x = rotr 17 x XOR rotr 19 x XOR drop_bit 10 x"

definition be32 :: "byte list \<Rightarrow> 32 word" where
  "be32 bs = foldl (\<lambda>acc b. push_bit 8 acc OR ucast b) 0 bs"

fun chunks :: "nat \<Rightarrow> 'a list \<Rightarrow> 'a list list" where
  "chunks 0 xs = []"
| "chunks (Suc n) [] = []"
| "chunks (Suc n) (x # xs) = (x # take n xs) # chunks (Suc n) (drop n xs)"

definition sha256_pad :: "byte list \<Rightarrow> byte list" where
  "sha256_pad m =
     (let l = length m;
          k = (119 - l mod 64) mod 64;
          bits = (of_nat (8 * l) :: 64 word)
      in m @ [0x80] @ replicate k 0 @ map (\<lambda>i. ucast (drop_bit (8 * (7 - i)) bits)) [0..<8])"

fun sha256_schedule :: "nat \<Rightarrow> 32 word list \<Rightarrow> 32 word list" where
  "sha256_schedule 0 w = w"
| "sha256_schedule (Suc n) w =
     (let t = length w
      in sha256_schedule n
           (w @ [sigma1 (w ! (t - 2)) + w ! (t - 7) + sigma0 (w ! (t - 15)) + w ! (t - 16)]))"

fun sha256_round :: "32 word list \<Rightarrow> 32 word \<times> 32 word \<Rightarrow> 32 word list" where
  "sha256_round [a, b, c, d, e, f, g, h] (k, w) =
     (let t1 = h + Sigma1 e + Ch e f g + k + w;
          t2 = Sigma0 a + Maj a b c
      in [t1 + t2, a, b, c, d + t1, e, f, g])"
| "sha256_round st _ = st"

definition sha256_block :: "32 word list \<Rightarrow> byte list \<Rightarrow> 32 word list" where
  "sha256_block hs blk =
     (let w = sha256_schedule 48 (map be32 (chunks 4 blk));
          st = foldl sha256_round hs (zip sha256_K w)
      in map2 (+) hs st)"

definition sha256 :: "byte list \<Rightarrow> byte list" where
  "sha256 m =
     concat (map (\<lambda>h. map (\<lambda>i. ucast (drop_bit (8 * (3 - i)) h)) [0..<4])
                 (foldl sha256_block sha256_H0 (chunks 64 (sha256_pad m))))"

definition hex_digit :: "nat \<Rightarrow> nat" where
  "hex_digit d = (if d < 10 then 0x30 + d else 0x61 + (d - 10))"

definition hexdigest :: "byte list \<Rightarrow> pystr" where
  "hexdigest bs = concat (map (\<lambda>b. [hex_digit (unat b div 16), hex_digit (unat b mod 16)]) bs)"

section \<open>The program and its collaborators\<close>

text \<open>
  The dictionary a loader returns, \<^verbatim>\<open>{"doc_id": ..., "content": ...}\<close>, and the class
  \<open>MCQ\<close>. (The class \<open>MCQList\<close> is declared and never used.)
\<close>

record document =
  doc_id :: pystr
  content :: pystr

record MCQ =
  question :: pystr
  options :: "pystr list"
  correct_answer :: pystr

text \<open>
  The argument \<open>source\<close> is an uploaded file (the bytes a \<open>read()\<close> returns) or a string.
  A value bound to a name is a string or the object a module-level or built-in name
  stands for.
\<close>

datatype source = FileObj "byte list" | UrlStr pystr

datatype pyobj = Str pystr | Global string

text \<open>
  The external collaborators, with an exception of theirs as \<open>Inl\<close>:
  \<^item> \<open>fitz_open\<close>: \<^verbatim>\<open>fitz.open(stream=..., filetype="pdf")\<close> with, for every page in page
    order, \<^verbatim>\<open>load_page(n).get_text("text")\<close>;
  \<^item> \<open>requests_get\<close>: \<^verbatim>\<open>requests.get(url).content\<close>;
  \<^item> \<open>soup_get_text\<close>: \<^verbatim>\<open>BeautifulSoup(body, 'html.parser').get_text()\<close>;
  \<^item> \<open>qna_generate_mcq\<close>: \<^verbatim>\<open>qna_engine.generate_mcq(topic, num, difficulty_level,
    prompt_template)\<close>, returning an object of the engine's own type \<open>'r\<close>;
  \<^item> \<open>result_questions\<close>: the attribute \<open>questions\<close> of such an object, if it has one;
  \<^item> \<open>py_builtins\<close>: the names of the interpreter's \<open>builtins\<close> module.
\<close>

record ('e, 'r) world =
  fitz_open :: "byte list \<Rightarrow> 'e + pystr list"
  requests_get :: "source \<Rightarrow> 'e + byte list"
  soup_get_text :: "byte list \<Rightarrow> 'e + pystr"
  qna_generate_mcq :: "pystr \<Rightarrow> int \<Rightarrow> pystr \<Rightarrow> pystr \<Rightarrow> 'e + 'r"
  result_questions :: "'r \<Rightarrow> MCQ list option"
  py_builtins :: "string list"

text \<open>The calls a run makes to the outside, in order.\<close>

datatype event =
    Fitz_open "byte list"
  | Requests_get source
  | Soup_get_text "byte list"
  | Qna_generate_mcq pystr int pystr pystr
  | Environ_set pystr pystr
  | St_title pystr
  | St_text pystr

type_synonym ('e, 'a) run = "event list \<times> ('e error + 'a)"

text \<open>\<^verbatim>\<open>file.read()\<close>: a string has no such method.\<close>

definition file_read :: "source \<Rightarrow> 'e error + byte list" where
  "file_read file =
     (case file of
        FileObj bs \<Rightarrow> Inr bs
      | UrlStr _ \<Rightarrow> Inl (AttributeError (py ''read'')))"

subsection \<open>PdfFileLoader\<close>

fun pdf_page_loop :: "pystr list \<Rightarrow> pystr list \<Rightarrow> pystr list" where
  "pdf_page_loop [] all_content = all_content"
| "pdf_page_loop (page # doc) all_content =
     (let content = page;
          content = PdfFileLoader_clean_string content
      in pdf_page_loop doc (all_content @ [content]))"

definition PdfFileLoader_load_data :: "('e, 'r) world \<Rightarrow> source \<Rightarrow> ('e, document) run" where
  "PdfFileLoader_load_data w file =
     (case file_read file of
        Inl e \<Rightarrow> ([], Inl e)
      | Inr bs \<Rightarrow>
          (case fitz_open w bs of
             Inl x \<Rightarrow> ([Fitz_open bs], Inl (Propagated x))
           | Inr doc \<Rightarrow>
               (let all_content = pdf_page_loop doc []
                in case utf8_encode (join (py '' '') all_content) of
                     Inl e \<Rightarrow> ([Fitz_open bs], Inl e)
                   | Inr enc \<Rightarrow>
                       ([Fitz_open bs],
                        Inr \<lparr>doc_id = hexdigest (sha256 enc),
                             content = join (py '' '') all_content\<rparr>))))"

subsection \<open>TextFileLoader\<close>

definition TextFileLoader_load_data :: "source \<Rightarrow> ('e, document) run" where
  "TextFileLoader_load_data file =
     (case file_read file of
        Inl e \<Rightarrow> ([], Inl e)
      | Inr bs \<Rightarrow>
          (case utf8_decode bs of
             Inl e \<Rightarrow> ([], Inl e)
           | Inr decoded \<Rightarrow>
               (let content = decoded;
                    content = TextFileLoader_clean_string content
                in case utf8_encode content of
                     Inl e \<Rightarrow> ([], Inl e)
                   | Inr enc \<Rightarrow> ([], Inr \<lparr>doc_id = hexdigest (sha256 enc), content = content\<rparr>))))"

subsection \<open>UrlLoader\<close>

definition UrlLoader_load_data :: "('e, 'r) world \<Rightarrow> source \<Rightarrow> ('e, document) run" where
  "UrlLoader_load_data w url =
     (case requests_get w url of
        Inl x \<Rightarrow> ([Requests_get url], Inl (Propagated x))
      | Inr body \<Rightarrow>
          (case soup_get_text w body of
             Inl x \<Rightarrow> ([Requests_get url, Soup_get_text body], Inl (Propagated x))
           | Inr extracted \<Rightarrow>
               (let content = extracted;
                    content = UrlLoader_clean_string content
                in case utf8_encode content of
                     Inl e \<Rightarrow> ([Requests_get url, Soup_get_text body], Inl e)
                   | Inr enc \<Rightarrow>
                       ([Requests_get url, Soup_get_text body],
                        Inr \<lparr>doc_id = hexdigest (sha256 enc), content = content\<rparr>))))"

subsection \<open>generate\_mcq and generate\_mcqs\_from\_data\<close>

definition default_prompt_template :: pystr where
  "default_prompt_template =
     py ''\<newline>'' @
     py ''        Generate {num} multiple-choice question (MCQ) based on the given topic and level.\<newline>'' @
     py ''        Provide the question, four answer options, and the correct answer.\<newline>'' @
     py ''\<newline>'' @
     py ''        Topic: {topic} \<newline>'' @
     py ''        Difficulty Level: {difficulty_level}\<newline>'' @
     py ''        ''"

definition generate_mcq ::
  "('e, 'r) world \<Rightarrow> pystr \<Rightarrow> int \<Rightarrow> pyobj \<Rightarrow> pystr \<Rightarrow> pystr option \<Rightarrow> pystr list \<Rightarrow> ('e, 'r) run"
where
  "generate_mcq w topic num learning_objective difficulty_level prompt_template kwargs =
     (let prompt_template =
            (case prompt_template of None \<Rightarrow> default_prompt_template | Some t \<Rightarrow> t)
      in case qna_generate_mcq w topic num difficulty_level prompt_template of
           Inl x \<Rightarrow> ([Qna_generate_mcq topic num difficulty_level prompt_template], Inl (Propagated x))
         | Inr result \<Rightarrow> ([Qna_generate_mcq topic num difficulty_level prompt_template], Inr result))"

definition unsupported_source_type :: pystr where
  "unsupported_source_type =
     py ''Unsupported source type. Please use '' @ [0x27] @ py ''pdf'' @ [0x27] @ py '', '' @
     [0x27] @ py ''text'' @ [0x27] @ py '', or '' @ [0x27] @ py ''url'' @ [0x27] @ py ''.''"

text \<open>
  \<open>kwargs\<close> are the names of the extra keyword arguments of the call; their values are
  never read. They are handed on with \<^verbatim>\<open>**kwargs\<close> in a call whose first positional
  argument already binds \<open>topic\<close>, so an extra keyword of that name is a \<open>TypeError\<close>.
\<close>

definition generate_mcqs_from_data ::
  "('e, 'r) world \<Rightarrow> source \<Rightarrow> pystr \<Rightarrow> int \<Rightarrow> pyobj \<Rightarrow> pystr \<Rightarrow> pystr option \<Rightarrow> pystr list
     \<Rightarrow> ('e, 'r) run"
where
  "generate_mcqs_from_data w source source_type num learning_objective difficulty_level
       prompt_template kwargs =
     (case (if source_type = py ''pdf'' then PdfFileLoader_load_data w source
            else if source_type = py ''text'' then TextFileLoader_load_data source
            else if source_type = py ''url'' then UrlLoader_load_data w source
            else ([], Inl (ValueError unsupported_source_type))) of
        (tr, Inl e) \<Rightarrow> (tr, Inl e)
      | (tr, Inr data) \<Rightarrow>
          (let content = content data
           in if py ''topic'' \<in> set kwargs then (tr, Inl (TypeError (py ''topic'')))
              else (case generate_mcq w content num learning_objective difficulty_level
                           prompt_template kwargs of
                      (tr', res) \<Rightarrow> (tr @ tr', res))))"

subsection \<open>format\_mcqs\<close>

text \<open>\<^verbatim>\<open>str(i)\<close> of a natural number, and \<^verbatim>\<open>chr(n)\<close>, which raises outside the code points.\<close>

function str_nat :: "nat \<Rightarrow> pystr" where
  "str_nat n = (if n < 10 then [0x30 + n] else str_nat (n div 10) @ [0x30 + n mod 10])"
  by pat_completeness auto
termination
  by (relation "measure id") auto

declare str_nat.simps [simp del]

definition chr_py :: "nat \<Rightarrow> nat option" where
  "chr_py n = (if n < 0x110000 then Some n else None)"

definition chr_range_message :: pystr where
  "chr_range_message = py ''chr() arg not in range(0x110000)''"

text \<open>
  The two loops of \<open>format_mcqs\<close>, with their counters and the string built so far. The
  only exception that can arise in them is the \<open>ValueError\<close> of \<open>chr\<close>, here \<open>None\<close>.
\<close>

fun format_options_loop :: "nat \<Rightarrow> pystr list \<Rightarrow> pystr \<Rightarrow> pystr option" where
  "format_options_loop j [] formatted_output = Some formatted_output"
| "format_options_loop j (option # rest) formatted_output =
     (case chr_py (96 + j) of
        None \<Rightarrow> None
      | Some letter \<Rightarrow>
          format_options_loop (j + 1) rest
            (formatted_output @ py ''   '' @ [letter] @ py '') '' @ option @ py ''\<newline>''))"

fun format_mcqs_loop :: "nat \<Rightarrow> MCQ list \<Rightarrow> pystr \<Rightarrow> pystr option" where
  "format_mcqs_loop i [] formatted_output = Some formatted_output"
| "format_mcqs_loop i (mcq # rest) formatted_output =
     (case format_options_loop 1 (options mcq)
             (formatted_output @ str_nat i @ py ''. '' @ question mcq @ py ''\<newline>'') of
        None \<Rightarrow> None
      | Some formatted_output \<Rightarrow>
          format_mcqs_loop (i + 1) rest
            (formatted_output @ py ''   Answer: '' @ correct_answer mcq @ py ''\<newline>\<newline>''))"

definition format_mcqs :: "MCQ list \<Rightarrow> 'e error + pystr" where
  "format_mcqs mcqs =
     (case format_mcqs_loop 1 mcqs [] of
        None \<Rightarrow> Inl (ValueError chr_range_message)
      | Some formatted_output \<Rightarrow> Inr formatted_output)"

subsection \<open>The formatter as the specification words it\<close>

text \<open>
  One line per option, lettered from \<open>a\<close> (code point 97) in option order; a question is
  its numbered line, its option lines, the answer line and an empty line; the output is
  the questions in order, numbered from 1.
\<close>

definition option_line :: "nat \<Rightarrow> pystr \<Rightarrow> pystr" where
  "option_line j opt = py ''   '' @ [96 + j] @ py '') '' @ opt @ py ''\<newline>''"

definition render_question :: "nat \<Rightarrow> MCQ \<Rightarrow> pystr" where
  "render_question i q =
     str_nat i @ py ''. '' @ question q @ py ''\<newline>'' @
     concat (map (\<lambda>(j, opt). option_line j opt) (List.enumerate 1 (options q))) @
     py ''   Answer: '' @ correct_answer q @ py ''\<newline>'' @
     py ''\<newline>''"

definition render_mcqs :: "MCQ list \<Rightarrow> pystr" where
  "render_mcqs qs = concat (map (\<lambda>(i, q). render_question i q) (List.enumerate 1 qs))"

subsection \<open>main\<close>

text \<open>
  What the environment and the widgets return in one run of the script:
  \<^verbatim>\<open>os.getenv("OPENAI_API_KEY")\<close>, the two select boxes, the number input, the file
  uploader, the text input and the button.
\<close>

record ui =
  getenv_api_key :: "pystr option"
  selectbox_source_type :: pystr
  number_input_num_mcqs :: int
  selectbox_difficulty_level :: pystr
  file_uploader :: "byte list option"
  text_input_url :: pystr
  button :: bool

text \<open>
  The names bound at module level when \<open>main\<close> runs: the imports, the classes and the
  functions of the file, and the names every module has. A name that \<open>main\<close> reads and
  never assigns is looked up there and then among the built-ins.
\<close>

definition module_globals :: "string list" where
  "module_globals =
     [''__name__'', ''__doc__'', ''__package__'', ''__loader__'', ''__spec__'', ''__file__'',
      ''__builtins__'',
      ''hashlib'', ''fitz'', ''re'', ''requests'', ''BeautifulSoup'', ''BaseModel'', ''List'',
      ''qna_engine'', ''os'', ''st'', ''load_dotenv'',
      ''MCQ'', ''MCQList'', ''PdfFileLoader'', ''TextFileLoader'', ''UrlLoader'',
      ''generate_mcq'', ''generate_mcqs_from_data'', ''format_mcqs'', ''main'']"

definition py_lookup :: "('e, 'r) world \<Rightarrow> string \<Rightarrow> 'e error + pyobj" where
  "py_lookup w name =
     (if name \<in> set module_globals \<or> name \<in> set (py_builtins w) then Inr (Global name)
      else Inl (NameError (py name)))"

text \<open>The statements of \<open>main\<close> before the branch on the source type.\<close>

definition main_setup :: "ui \<Rightarrow> event list" where
  "main_setup u =
     [St_title (py ''MCQ Generator using Educhain'')] @
     (case getenv_api_key u of
        None \<Rightarrow> []
      | Some api_key \<Rightarrow> if api_key \<noteq> [] then [Environ_set (py ''OPENAI_API_KEY'') api_key] else [])"

text \<open>
  The two statements every branch has after its call of \<open>generate_mcqs_from_data\<close>:
  \<^verbatim>\<open>formatted_mcqs = format_mcqs(mcqs.questions)\<close> and \<^verbatim>\<open>st.text(formatted_mcqs)\<close>.
\<close>

definition show_mcqs :: "('e, 'r) world \<Rightarrow> ('e, 'r) run \<Rightarrow> ('e, unit) run" where
  "show_mcqs w r =
     (case r of
        (tr, Inl e) \<Rightarrow> (tr, Inl e)
      | (tr, Inr result) \<Rightarrow>
          (case result_questions w result of
             None \<Rightarrow> (tr, Inl (AttributeError (py ''questions'')))
           | Some qs \<Rightarrow>
               (case format_mcqs qs of
                  Inl e \<Rightarrow> (tr, Inl e)
                | Inr formatted_mcqs \<Rightarrow> (tr @ [St_text formatted_mcqs], Inr ()))))"

definition main :: "('e, 'r) world \<Rightarrow> ui \<Rightarrow> ('e, unit) run" where
  "main w u =
     (let source_type = selectbox_source_type u;
          num_mcqs = number_input_num_mcqs u;
          difficulty_level = selectbox_difficulty_level u
      in if source_type = py ''pdf'' then
           (case file_uploader u of
              None \<Rightarrow> (main_setup u, Inr ())
            | Some uploaded_file \<Rightarrow>
                if button u then
                  (case show_mcqs w
                          (generate_mcqs_from_data w (FileObj uploaded_file) (py ''pdf'') num_mcqs
                             (Str []) difficulty_level None []) of
                     (tr, res) \<Rightarrow> (main_setup u @ tr, res))
                else (main_setup u, Inr ()))
         else if source_type = py ''text'' then
           (case file_uploader u of
              None \<Rightarrow> (main_setup u, Inr ())
            | Some uploaded_file \<Rightarrow>
                if button u then
                  (case show_mcqs w
                          (generate_mcqs_from_data w (FileObj uploaded_file) (py ''text'') num_mcqs
                             (Str []) difficulty_level None []) of
                     (tr, res) \<Rightarrow> (main_setup u @ tr, res))
                else (main_setup u, Inr ()))
         else if source_type = py ''url'' then
           (let url = text_input_url u
            in if url \<noteq> [] then
                 if button u then
                   (case py_lookup w ''learning_objective'' of
                      Inl e \<Rightarrow> (main_setup u, Inl e)
                    | Inr learning_objective \<Rightarrow>
                        (case show_mcqs w
                                (generate_mcqs_from_data w (UrlStr url) (py ''url'') num_mcqs
                                   learning_objective difficulty_level None []) of
                           (tr, res) \<Rightarrow> (main_setup u @ tr, res)))
                 else (main_setup u, Inr ())
               else (main_setup u, Inr ()))
         else (main_setup u, Inr ()))"

text \<open>The events that are calls of the question engine.\<close>

definition is_engine_call :: "event \<Rightarrow> bool" where
  "is_engine_call e = (case e of Qna_generate_mcq _ _ _ _ \<Rightarrow> True | _ \<Rightarrow> False)"

subsection \<open>Fingerprints and well-formed input as the specification words them\<close>

text \<open>
  The fingerprint of a text is the hexadecimal SHA-256 digest of its UTF-8 encoding, if
  it has one. A loader returns a record for a source if one of the three \<open>load_data\<close>
  methods ends with that record. A byte string is well-formed UTF-8 if it is the encoding
  of some text.
\<close>

definition fingerprint :: "pystr \<Rightarrow> pystr option" where
  "fingerprint text =
     map_option (\<lambda>ns. hexdigest (sha256 (map of_nat ns))) (utf8_encode_nat text)"

definition loader_returns :: "('e, 'r) world \<Rightarrow> source \<Rightarrow> document \<Rightarrow> bool" where
  "loader_returns w src d \<longleftrightarrow>
     snd (PdfFileLoader_load_data w src) = Inr d \<or>
     snd (TextFileLoader_load_data src :: ('e, document) run) = Inr d \<or>
     snd (UrlLoader_load_data w src) = Inr d"

definition valid_utf8 :: "byte list \<Rightarrow> bool" where
  "valid_utf8 bs \<longleftrightarrow> (\<exists>text. map_option (map of_nat) (utf8_encode_nat text) = Some bs)"

subsection \<open>A concrete world\<close>

text \<open>
  Collaborators for the examples: a three-page document whose second page is blank, a
  server that answers every request with the same page, and an engine that returns one
  question about its topic.
\<close>

definition example_world :: "(unit, MCQ list) world" where
  "example_world =
     \<lparr>fitz_open = (\<lambda>bs. Inr [py ''a\<newline>'', [], py ''b\<newline>'']),
      requests_get = (\<lambda>url. Inr [0x3C, 0x70, 0x3E, 0x68, 0x69]),
      soup_get_text = (\<lambda>body. Inr (py ''hi'')),
      qna_generate_mcq =
        (\<lambda>topic num difficulty_level prompt_template.
           Inr [\<lparr>question = topic, options = [py ''w'', py ''x'', py ''y'', py ''z''],
                 correct_answer = py ''x''\<rparr>]),
      result_questions = Some,
      py_builtins = [''len'', ''range'', ''enumerate'', ''chr'', ''ValueError'']\<rparr>"

section \<open>Properties of the normalizer\<close>

lemma isspace_space [simp]: "isspace 0x20"
  by (simp add: isspace_def)

lemma clean_string_eq:
  "PdfFileLoader_clean_string s = strip (re_sub_ws s)"
  "TextFileLoader_clean_string s = strip (re_sub_ws s)"
  "UrlLoader_clean_string s = strip (re_sub_ws s)"
  by (simp_all add: PdfFileLoader_clean_string_def TextFileLoader_clean_string_def
      UrlLoader_clean_string_def)

subsection \<open>Stripping\<close>

lemma rstrip_Nil [simp]: "rstrip [] = []"
  by (simp add: rstrip_def)

lemma rstrip_Cons:
  "rstrip (x # xs) = (if isspace x \<and> rstrip xs = [] then [] else x # rstrip xs)"
  by (auto simp: rstrip_def dropWhile_append)

lemma rstrip_rstrip: "rstrip (rstrip s) = rstrip s"
  by (simp add: rstrip_def)

lemma rstrip_word: "\<forall>x\<in>set w. \<not> isspace x \<Longrightarrow> rstrip (w @ r) = w @ rstrip r"
  by (induction w) (auto simp: rstrip_Cons)

lemma dropWhile_hd: "dropWhile P s = [] \<or> \<not> P (hd (dropWhile P s))"
  using hd_dropWhile[of P s] by blast

lemma lstrip_fixed:
  "t = [] \<or> \<not> isspace (hd t) \<Longrightarrow> dropWhile isspace (rstrip t) = rstrip t"
  by (cases t) (auto simp: rstrip_Cons)

lemma lstrip_strip: "dropWhile isspace (strip s) = strip s"
  unfolding strip_def using dropWhile_hd[of isspace s] by (rule lstrip_fixed)

lemma strip_strip: "strip (strip s) = strip s"
  using lstrip_strip[of s] by (simp add: strip_def rstrip_rstrip)

lemma strip_ws_Cons: "isspace c \<Longrightarrow> strip (c # r) = strip r"
  by (simp add: strip_def)

subsection \<open>Collapsed strings are fixed points of the substitution\<close>

fun collapsed :: "pystr \<Rightarrow> bool" where
  "collapsed [] = True"
| "collapsed [c] = (isspace c \<longrightarrow> c = 0x20)"
| "collapsed (c # d # ds) = ((isspace c \<longrightarrow> c = 0x20 \<and> \<not> isspace d) \<and> collapsed (d # ds))"

lemma lstrip_re_sub_ws:
  "t = [] \<or> \<not> isspace (hd t) \<Longrightarrow> dropWhile isspace (re_sub_ws t) = re_sub_ws t"
  by (cases t) auto

lemma re_sub_ws_hd:
  assumes "re_sub_ws (dropWhile isspace cs) = d # ds"
  shows "\<not> isspace d"
proof (cases "dropWhile isspace cs")
  case Nil
  with assms show ?thesis by simp
next
  case (Cons a list)
  then have "\<not> isspace a"
    using hd_dropWhile[of isspace cs] by auto
  with Cons assms show ?thesis by auto
qed

lemma collapsed_re_sub_ws: "collapsed (re_sub_ws s)"
proof (induction s rule: re_sub_ws.induct)
  case 1
  show ?case by simp
next
  case (2 c cs)
  show ?case
  proof (cases "isspace c")
    case True
    with 2 show ?thesis
      by (cases "re_sub_ws (dropWhile isspace cs)") (auto dest: re_sub_ws_hd)
  next
    case False
    with 2 show ?thesis by (cases "re_sub_ws cs") auto
  qed
qed

lemma re_sub_ws_collapsed: "collapsed s \<Longrightarrow> re_sub_ws s = s"
  by (induction s rule: collapsed.induct) auto

lemma collapsed_dropWhile: "collapsed s \<Longrightarrow> collapsed (dropWhile P s)"
  by (induction s rule: collapsed.induct) auto

lemma collapsed_butlast: "collapsed s \<Longrightarrow> collapsed (butlast s)"
  by (induction s rule: collapsed.induct) auto

lemma collapsed_rstrip: "collapsed s \<Longrightarrow> collapsed (rstrip s)"
proof (induction s rule: rev_induct)
  case Nil
  show ?case by simp
next
  case (snoc x xs)
  then show ?case
    using collapsed_butlast[of "xs @ [x]"] by (auto simp: rstrip_def)
qed

lemma collapsed_strip: "collapsed s \<Longrightarrow> collapsed (strip s)"
  unfolding strip_def by (intro collapsed_rstrip collapsed_dropWhile)

lemma strip_re_sub_ws_idem:
  "strip (re_sub_ws (strip (re_sub_ws s))) = strip (re_sub_ws s)"
proof -
  have "collapsed (strip (re_sub_ws s))"
    by (rule collapsed_strip[OF collapsed_re_sub_ws])
  then have "re_sub_ws (strip (re_sub_ws s)) = strip (re_sub_ws s)"
    by (rule re_sub_ws_collapsed)
  then show ?thesis by (simp add: strip_strip)
qed

subsection \<open>The words of the input\<close>

lemma strip_re_sub_ws_dropWhile:
  "strip (re_sub_ws (dropWhile isspace cs)) = strip (re_sub_ws cs)"
proof (induction cs)
  case Nil
  show ?case by simp
next
  case (Cons d ds)
  show ?case
  proof (cases "isspace d")
    case True
    then show ?thesis by (simp add: strip_ws_Cons)
  next
    case False
    then show ?thesis by simp
  qed
qed

lemma strip_re_sub_ws_Cons:
  "isspace c \<Longrightarrow> strip (re_sub_ws (c # cs)) = strip (re_sub_ws cs)"
  using strip_re_sub_ws_dropWhile[of cs] by (simp add: strip_ws_Cons)

lemma re_sub_ws_word:
  "re_sub_ws cs =
     takeWhile (\<lambda>d. \<not> isspace d) cs @ re_sub_ws (dropWhile (\<lambda>d. \<not> isspace d) cs)"
  by (induction cs) auto

lemma ws_words_nonempty: "[] \<notin> set (ws_words s)"
  by (induction s rule: ws_words.induct) auto

lemma join_eq_Nil: "[] \<notin> set ws \<Longrightarrow> join sep ws = [] \<longleftrightarrow> ws = []"
  by (induction sep ws rule: join.induct) auto

lemma join_Cons: "join sep (w # ws) = w @ (if ws = [] then [] else sep @ join sep ws)"
  by (cases ws) auto

lemma strip_re_sub_ws_words: "strip (re_sub_ws s) = join [0x20] (ws_words s)"
proof (induction s rule: ws_words.induct)
  case 1
  show ?case by (simp add: strip_def)
next
  case (2 c cs)
  show ?case
  proof (cases "isspace c")
    case True
    with 2 show ?thesis
      using strip_re_sub_ws_Cons[OF True, of cs] by simp
  next
    case False
    define w where "w = c # takeWhile (\<lambda>d. \<not> isspace d) cs"
    define rest where "rest = dropWhile (\<lambda>d. \<not> isspace d) cs"
    have IH: "strip (re_sub_ws rest) = join [0x20] (ws_words rest)"
      using 2(2)[OF False] by (simp add: rest_def)
    have wns: "\<forall>x\<in>set w. \<not> isspace x"
      using False by (auto simp: w_def dest: set_takeWhileD)
    have sub: "re_sub_ws (c # cs) = w @ re_sub_ws rest"
      using False re_sub_ws_word[of cs] by (simp add: w_def rest_def)
    have lw: "dropWhile isspace (w @ re_sub_ws rest) = w @ re_sub_ws rest"
      using False by (simp add: w_def)
    have cl: "strip (re_sub_ws (c # cs)) = w @ rstrip (re_sub_ws rest)"
      unfolding sub strip_def lw by (rule rstrip_word[OF wns])
    have rs: "rstrip (re_sub_ws rest) =
        (if strip (re_sub_ws rest) = [] then [] else 0x20 # strip (re_sub_ws rest))"
    proof (cases rest)
      case Nil
      then show ?thesis by (simp add: strip_def)
    next
      case (Cons d ds)
      have "rest = [] \<or> \<not> \<not> isspace (hd rest)"
        unfolding rest_def by (rule dropWhile_hd)
      with Cons have d: "isspace d" by simp
      have "strip (re_sub_ws rest) = rstrip (re_sub_ws (dropWhile isspace ds))"
        using d Cons lstrip_re_sub_ws[OF dropWhile_hd[of isspace ds]]
        by (simp add: strip_def)
      then show ?thesis using d Cons by (simp add: rstrip_Cons)
    qed
    show ?thesis
      unfolding cl rs IH using ws_words_nonempty[of rest] False
      by (simp add: join_Cons join_eq_Nil w_def rest_def)
  qed
qed

section \<open>UTF-8: the decoder and the encoder are inverse to each other\<close>

lemma split64: "z < 64 \<Longrightarrow> (a * 64 + z) div 64 = (a::nat) \<and> (a * 64 + z) mod 64 = z"
  by simp

lemma three_bytes:
  fixes x y z :: nat
  assumes "y < 64" "z < 64"
  shows "(x * 4096 + y * 64 + z) div 4096 = x \<and>
         (x * 4096 + y * 64 + z) div 64 mod 64 = y \<and>
         (x * 4096 + y * 64 + z) mod 64 = z"
proof -
  define c where "c = x * 4096 + y * 64 + z"
  have e: "c = (x * 64 + y) * 64 + z" by (simp add: c_def)
  have d: "c div 64 = x * 64 + y" and m: "c mod 64 = z"
    using split64[OF assms(2), of "x * 64 + y"] by (simp_all only: e)
  have "c div 4096 = c div 64 div 64"
    by (simp add: div_mult2_eq[symmetric])
  then have "c div 4096 = x" "c div 64 mod 64 = y"
    using split64[OF assms(1), of x] by (simp_all only: d)
  with m show ?thesis by (simp only: c_def)
qed

lemma four_bytes:
  fixes w x y z :: nat
  assumes "x < 64" "y < 64" "z < 64"
  shows "(w * 262144 + x * 4096 + y * 64 + z) div 262144 = w \<and>
         (w * 262144 + x * 4096 + y * 64 + z) div 4096 mod 64 = x \<and>
         (w * 262144 + x * 4096 + y * 64 + z) div 64 mod 64 = y \<and>
         (w * 262144 + x * 4096 + y * 64 + z) mod 64 = z"
proof -
  define c where "c = w * 262144 + x * 4096 + y * 64 + z"
  have e: "c = (w * 64 + x) * 4096 + y * 64 + z" by (simp add: c_def)
  have t: "c div 4096 = w * 64 + x" "c div 64 mod 64 = y" "c mod 64 = z"
    using three_bytes[OF assms(2,3), of "w * 64 + x"] by (simp_all only: e)
  have "c div 262144 = c div 4096 div 64"
    by (simp add: div_mult2_eq[symmetric])
  then have "c div 262144 = w" "c div 4096 mod 64 = x"
    using split64[OF assms(1), of w] by (simp_all only: t)
  with t show ?thesis by (simp only: c_def)
qed


lemma enc1: "b0 < 0x80 \<Longrightarrow> utf8_encode_char b0 = Some [b0]"
  by (simp add: utf8_encode_char_def)

lemma enc2:
  assumes "0xC2 \<le> b0" "b0 \<le> 0xDF" "is_cont b1"
  shows "utf8_encode_char ((b0 - 0xC0) * 0x40 + (b1 - 0x80)) = Some [b0, b1]"
proof -
  define x where "x = b0 - 0xC0"
  define y where "y = b1 - 0x80"
  define c where "c = x * 64 + y"
  have b: "b0 = 0xC0 + x" "b1 = 0x80 + y" "2 \<le> x" "x \<le> 31" "y < 64"
    using assms by (auto simp: is_cont_def x_def y_def)
  have dm: "c div 64 = x" "c mod 64 = y"
    using split64[OF b(5), of x] by (simp_all only: c_def)
  have r: "\<not> c < 0x80" "c < 0x800"
    using b(3,4,5) by (simp_all add: c_def)
  show ?thesis
    unfolding x_def[symmetric] y_def[symmetric] utf8_encode_char_def
    using r dm b(1,2) by (simp add: c_def[symmetric])
qed

lemma enc3:
  assumes "0xE0 \<le> b0" "b0 \<le> 0xEF" "is_cont b1" "is_cont b2"
    "b0 = 0xE0 \<longrightarrow> 0xA0 \<le> b1" "b0 = 0xED \<longrightarrow> b1 \<le> 0x9F"
  shows "utf8_encode_char ((b0 - 0xE0) * 0x1000 + (b1 - 0x80) * 0x40 + (b2 - 0x80)) = Some [b0, b1, b2]"
proof -
  define x where "x = b0 - 0xE0"
  define y where "y = b1 - 0x80"
  define z where "z = b2 - 0x80"
  define c where "c = x * 4096 + y * 64 + z"
  have b: "b0 = 0xE0 + x" "b1 = 0x80 + y" "b2 = 0x80 + z" "x \<le> 15" "y < 64" "z < 64"
    using assms(1-4) by (auto simp: is_cont_def x_def y_def z_def)
  have g: "x = 0 \<longrightarrow> 32 \<le> y" "x = 13 \<longrightarrow> y \<le> 31"
    using assms(5,6) b(1,2) by auto
  have dm: "c div 4096 = x" "c div 64 mod 64 = y" "c mod 64 = z"
    using three_bytes[OF b(5,6), of x] by (simp_all only: c_def)
  have r1: "\<not> c < 0x800"
  proof (cases "x = 0")
    case True
    with g(1) show ?thesis by (simp add: c_def)
  next
    case False
    then show ?thesis by (simp add: c_def)
  qed
  have r2: "\<not> (0xD800 \<le> c \<and> c \<le> 0xDFFF)"
  proof -
    consider "x \<le> 12" | "x = 13" | "14 \<le> x" by linarith
    then show ?thesis
    proof cases
      case 1
      then show ?thesis using b(5,6) by (simp add: c_def)
    next
      case 2
      then show ?thesis using g(2) b(6) by (simp add: c_def)
    next
      case 3
      then show ?thesis by (simp add: c_def)
    qed
  qed
  have r3: "c < 0x10000"
    using b(4,5,6) by (simp add: c_def)
  note r = r1 r2 r3
  then have r': "\<not> c < 0x80" by simp
  show ?thesis
    unfolding x_def[symmetric] y_def[symmetric] z_def[symmetric] utf8_encode_char_def
    using r r' dm b(1,2,3) by (simp add: c_def[symmetric])
qed

lemma enc4:
  assumes "0xF0 \<le> b0" "b0 \<le> 0xF4" "is_cont b1" "is_cont b2" "is_cont b3"
    "b0 = 0xF0 \<longrightarrow> 0x90 \<le> b1" "b0 = 0xF4 \<longrightarrow> b1 \<le> 0x8F"
  shows "utf8_encode_char ((b0 - 0xF0) * 0x40000 + (b1 - 0x80) * 0x1000 + (b2 - 0x80) * 0x40 + (b3 - 0x80))
         = Some [b0, b1, b2, b3]"
proof -
  define w where "w = b0 - 0xF0"
  define x where "x = b1 - 0x80"
  define y where "y = b2 - 0x80"
  define z where "z = b3 - 0x80"
  define c where "c = w * 262144 + x * 4096 + y * 64 + z"
  have b: "b0 = 0xF0 + w" "b1 = 0x80 + x" "b2 = 0x80 + y" "b3 = 0x80 + z"
    "w \<le> 4" "x < 64" "y < 64" "z < 64"
    using assms(1-5) by (auto simp: is_cont_def w_def x_def y_def z_def)
  have g: "w = 0 \<longrightarrow> 16 \<le> x" "w = 4 \<longrightarrow> x \<le> 15"
    using assms(6,7) b(1,2) by auto
  have dm: "c div 262144 = w" "c div 4096 mod 64 = x" "c div 64 mod 64 = y" "c mod 64 = z"
    using four_bytes[OF b(6,7,8), of w] by (simp_all only: c_def)
  have r1: "\<not> c < 0x10000"
  proof (cases "w = 0")
    case True
    with g(1) show ?thesis by (simp add: c_def)
  next
    case False
    then show ?thesis by (simp add: c_def)
  qed
  have r2: "c < 0x110000"
  proof (cases "w = 4")
    case True
    with g(2) b(7,8) show ?thesis by (simp add: c_def)
  next
    case False
    with b(5-8) show ?thesis by (simp add: c_def)
  qed
  note r = r1 r2
  then have r': "\<not> c < 0x80" "\<not> c < 0x800" "\<not> (0xD800 \<le> c \<and> c \<le> 0xDFFF)" by simp_all
  show ?thesis
    unfolding w_def[symmetric] x_def[symmetric] y_def[symmetric] z_def[symmetric] utf8_encode_char_def
    using r r' dm b(1-4) by (simp add: c_def[symmetric])
qed



lemma seq1: "b0 < 0x80 \<Longrightarrow> utf8_decode_seq (b0 # bs) = Some (b0, bs)"
  by simp

lemma seq2:
  "0xC2 \<le> b0 \<Longrightarrow> b0 \<le> 0xDF \<Longrightarrow> utf8_decode_seq (b0 # bs) =
     (case bs of
        b1 # r \<Rightarrow> if is_cont b1 then Some ((b0 - 0xC0) * 0x40 + (b1 - 0x80), r) else None
      | _ \<Rightarrow> None)"
  by simp

lemma seq3:
  "0xE0 \<le> b0 \<Longrightarrow> b0 \<le> 0xEF \<Longrightarrow> utf8_decode_seq (b0 # bs) =
     (case bs of
        b1 # b2 # r \<Rightarrow>
          if is_cont b1 \<and> is_cont b2 \<and> (b0 = 0xE0 \<longrightarrow> 0xA0 \<le> b1) \<and> (b0 = 0xED \<longrightarrow> b1 \<le> 0x9F)
          then Some ((b0 - 0xE0) * 0x1000 + (b1 - 0x80) * 0x40 + (b2 - 0x80), r) else None
      | _ \<Rightarrow> None)"
  by simp

lemma seq4:
  "0xF0 \<le> b0 \<Longrightarrow> b0 \<le> 0xF4 \<Longrightarrow> utf8_decode_seq (b0 # bs) =
     (case bs of
        b1 # b2 # b3 # r \<Rightarrow>
          if is_cont b1 \<and> is_cont b2 \<and> is_cont b3 \<and> (b0 = 0xF0 \<longrightarrow> 0x90 \<le> b1) \<and> (b0 = 0xF4 \<longrightarrow> b1 \<le> 0x8F)
          then Some ((b0 - 0xF0) * 0x40000 + (b1 - 0x80) * 0x1000 + (b2 - 0x80) * 0x40 + (b3 - 0x80), r)
          else None
      | _ \<Rightarrow> None)"
  by simp

lemma seq_none:
  "\<not> b0 < 0x80 \<Longrightarrow> \<not> (0xC2 \<le> b0 \<and> b0 \<le> 0xDF) \<Longrightarrow> \<not> (0xE0 \<le> b0 \<and> b0 \<le> 0xEF) \<Longrightarrow>
   \<not> (0xF0 \<le> b0 \<and> b0 \<le> 0xF4) \<Longrightarrow> utf8_decode_seq (b0 # bs) = None"
  by auto


lemma seq_sound:
  assumes "utf8_decode_seq bs = Some (c, r)"
  shows "\<exists>e. utf8_encode_char c = Some e \<and> bs = e @ r"
proof (cases bs)
  case Nil
  with assms show ?thesis by simp
next
  case (Cons b0 t)
  consider (a) "b0 < 0x80" | (b) "0xC2 \<le> b0" "b0 \<le> 0xDF" | (c) "0xE0 \<le> b0" "b0 \<le> 0xEF"
    | (d) "0xF0 \<le> b0" "b0 \<le> 0xF4"
    | (e) "\<not> b0 < 0x80" "\<not> (0xC2 \<le> b0 \<and> b0 \<le> 0xDF)" "\<not> (0xE0 \<le> b0 \<and> b0 \<le> 0xEF)"
        "\<not> (0xF0 \<le> b0 \<and> b0 \<le> 0xF4)"
    by blast
  then show ?thesis
  proof cases
    case a
    with assms Cons show ?thesis by (simp only: seq1) (simp add: enc1)
  next
    case b
    from assms show ?thesis
      unfolding Cons seq2[OF b]
      by (auto split: list.splits if_splits simp: enc2[OF b])
  next
    case c
    from assms show ?thesis
      unfolding Cons seq3[OF c]
      by (auto split: list.splits if_splits simp: enc3[OF c])
  next
    case d
    from assms show ?thesis
      unfolding Cons seq4[OF d]
      by (auto split: list.splits if_splits simp: enc4[OF d])
  next
    case e
    from assms show ?thesis
      unfolding Cons seq_none[OF e] by simp
  qed
qed

lemma decode_sound: "utf8_decode_nat bs = Some s \<Longrightarrow> utf8_encode_nat s = Some bs"
proof (induction bs arbitrary: s rule: utf8_decode_nat.induct)
  case (1 bs)
  show ?case
  proof (cases "bs = []")
    case True
    with 1(2) show ?thesis by simp
  next
    case False
    from 1(2) False obtain c r s' where
      seq: "utf8_decode_seq bs = Some (c, r)" and rec: "utf8_decode_nat r = Some s'" and s: "s = c # s'"
      by (auto simp: utf8_decode_nat_step split: option.splits)
    from seq_sound[OF seq] obtain e where e: "utf8_encode_char c = Some e" "bs = e @ r" by blast
    have "utf8_encode_nat s' = Some r"
      using 1(1)[OF False seq refl rec] .
    with e s show ?thesis by simp
  qed
qed


lemma regroup3: "(n::nat) = (a * 64 + b) * 64 + d \<Longrightarrow> n = a * 4096 + b * 64 + d"
  by simp

lemma regroup4: "(n::nat) = (a * 64 + b) * 4096 + d * 64 + e \<Longrightarrow> n = a * 262144 + b * 4096 + d * 64 + e"
  by simp

lemma decomp3: "(c::nat) = (c div 4096) * 4096 + (c div 64 mod 64) * 64 + c mod 64"
proof -
  have 3: "c div 64 div 64 = c div 4096" by (simp add: div_mult2_eq[symmetric])
  have "c div 64 = (c div 64 div 64) * 64 + c div 64 mod 64" by simp
  then have "c div 64 = (c div 4096) * 64 + c div 64 mod 64" by (simp only: 3)
  moreover have "c = (c div 64) * 64 + c mod 64" by simp
  ultimately have "c = ((c div 4096) * 64 + c div 64 mod 64) * 64 + c mod 64" by (simp only:)
  then show ?thesis by (rule regroup3)
qed

lemma decomp4:
  "(c::nat) = (c div 262144) * 262144 + (c div 4096 mod 64) * 4096 + (c div 64 mod 64) * 64 + c mod 64"
proof -
  have 3: "c div 4096 div 64 = c div 262144" by (simp add: div_mult2_eq[symmetric])
  have "c div 4096 = (c div 4096 div 64) * 64 + c div 4096 mod 64" by simp
  then have "c div 4096 = (c div 262144) * 64 + c div 4096 mod 64" by (simp only: 3)
  moreover have "c = (c div 4096) * 4096 + (c div 64 mod 64) * 64 + c mod 64" by (rule decomp3)
  ultimately have
    "c = ((c div 262144) * 64 + c div 4096 mod 64) * 4096 + (c div 64 mod 64) * 64 + c mod 64"
    by (simp only:)
  then show ?thesis by (rule regroup4)
qed


lemma dec2:
  assumes "\<not> c < 0x80" "c < 0x800"
  shows "utf8_decode_seq ([0xC0 + c div 0x40, 0x80 + c mod 0x40] @ r) = Some (c, r)"
proof -
  define x where "x = c div 64"
  define z where "z = c mod 64"
  have c: "c = x * 64 + z" and z: "z < 64" by (simp_all add: x_def z_def)
  have x: "2 \<le> x" "x \<le> 31" using assms z unfolding c by simp_all
  have b: "0xC2 \<le> 0xC0 + x" "0xC0 + x \<le> 0xDF" using x by simp_all
  show ?thesis
    unfolding x_def[symmetric] z_def[symmetric] append_Cons append_Nil seq2[OF b]
    using z by (simp add: is_cont_def c)
qed

lemma dec3:
  assumes "\<not> c < 0x800" "\<not> (0xD800 \<le> c \<and> c \<le> 0xDFFF)" "c < 0x10000"
  shows "utf8_decode_seq ([0xE0 + c div 0x1000, 0x80 + c div 0x40 mod 0x40, 0x80 + c mod 0x40] @ r)
         = Some (c, r)"
proof -
  define x where "x = c div 4096"
  define y where "y = c div 64 mod 64"
  define z where "z = c mod 64"
  have c: "c = x * 4096 + y * 64 + z"
    unfolding x_def y_def z_def by (rule decomp3)
  have yz: "y < 64" "z < 64" by (simp_all add: y_def z_def)
  have x: "x \<le> 15" using assms(3) yz unfolding c by simp
  have g1: "x = 0 \<longrightarrow> 32 \<le> y" using assms(1) yz unfolding c by auto
  have g2: "x = 13 \<longrightarrow> y \<le> 31" using assms(2) yz unfolding c by auto
  have b: "0xE0 \<le> 0xE0 + x" "0xE0 + x \<le> 0xEF" using x by simp_all
  show ?thesis
    unfolding x_def[symmetric] y_def[symmetric] z_def[symmetric] append_Cons append_Nil seq3[OF b]
    using yz g1 g2 by (simp add: is_cont_def c)
qed

lemma dec4:
  assumes "\<not> c < 0x10000" "c < 0x110000"
  shows "utf8_decode_seq ([0xF0 + c div 0x40000, 0x80 + c div 0x1000 mod 0x40,
                           0x80 + c div 0x40 mod 0x40, 0x80 + c mod 0x40] @ r) = Some (c, r)"
proof -
  define w where "w = c div 262144"
  define x where "x = c div 4096 mod 64"
  define y where "y = c div 64 mod 64"
  define z where "z = c mod 64"
  have c: "c = w * 262144 + x * 4096 + y * 64 + z"
    unfolding w_def x_def y_def z_def by (rule decomp4)
  have xyz: "x < 64" "y < 64" "z < 64" by (simp_all add: x_def y_def z_def)
  have w: "w \<le> 4" using assms(2) xyz unfolding c by simp
  have g1: "w = 0 \<longrightarrow> 16 \<le> x" using assms(1) xyz unfolding c by auto
  have g2: "w = 4 \<longrightarrow> x \<le> 15" using assms(2) xyz unfolding c by auto
  have b: "0xF0 \<le> 0xF0 + w" "0xF0 + w \<le> 0xF4" using w by simp_all
  show ?thesis
    unfolding w_def[symmetric] x_def[symmetric] y_def[symmetric] z_def[symmetric]
      append_Cons append_Nil seq4[OF b]
    using xyz g1 g2 by (simp add: is_cont_def c)
qed

lemma seq_complete:
  assumes "utf8_encode_char c = Some e"
  shows "utf8_decode_seq (e @ r) = Some (c, r)"
proof -
  consider (a) "c < 0x80" | (b) "\<not> c < 0x80" "c < 0x800"
    | (s) "\<not> c < 0x800" "0xD800 \<le> c \<and> c \<le> 0xDFFF"
    | (c) "\<not> c < 0x800" "\<not> (0xD800 \<le> c \<and> c \<le> 0xDFFF)" "c < 0x10000"
    | (d) "\<not> c < 0x10000" "c < 0x110000" | (o) "\<not> c < 0x110000"
    by linarith
  then show ?thesis
  proof cases
    case a
    with assms show ?thesis by (auto simp: utf8_encode_char_def)
  next
    case b
    with assms have "e = [0xC0 + c div 0x40, 0x80 + c mod 0x40]"
      by (simp add: utf8_encode_char_def)
    then show ?thesis using dec2[OF b] by simp
  next
    case s
    with assms show ?thesis by (simp add: utf8_encode_char_def)
  next
    case c
    with assms have "e = [0xE0 + c div 0x1000, 0x80 + c div 0x40 mod 0x40, 0x80 + c mod 0x40]"
      by (simp add: utf8_encode_char_def)
    then show ?thesis using dec3[OF c] by simp
  next
    case d
    with assms have "e = [0xF0 + c div 0x40000, 0x80 + c div 0x1000 mod 0x40,
                           0x80 + c div 0x40 mod 0x40, 0x80 + c mod 0x40]"
      by (simp add: utf8_encode_char_def)
    then show ?thesis using dec4[OF d] by simp
  next
    case o
    with assms show ?thesis by (simp add: utf8_encode_char_def)
  qed
qed


lemma encode_char_nonempty: "utf8_encode_char c = Some e \<Longrightarrow> e \<noteq> []"
  by (auto simp: utf8_encode_char_def split: if_splits)

lemma decode_complete: "utf8_encode_nat s = Some bs \<Longrightarrow> utf8_decode_nat bs = Some s"
proof (induction s arbitrary: bs)
  case Nil
  then show ?case by simp
next
  case (Cons c cs)
  from Cons.prems obtain e r where
    e: "utf8_encode_char c = Some e" and r: "utf8_encode_nat cs = Some r" and bs: "bs = e @ r"
    by (auto split: option.splits)
  have ne: "e @ r \<noteq> []" using encode_char_nonempty[OF e] by simp
  show ?case
    unfolding bs utf8_decode_nat_step[OF ne] seq_complete[OF e] using Cons.IH[OF r] by simp
qed

lemma encode_char_bytes: "utf8_encode_char c = Some e \<Longrightarrow> \<forall>b\<in>set e. b < 256"
  by (auto simp: utf8_encode_char_def less_mult_imp_div_less split: if_splits)

lemma encode_nat_bytes: "utf8_encode_nat s = Some ns \<Longrightarrow> \<forall>b\<in>set ns. b < 256"
proof (induction s arbitrary: ns)
  case Nil
  then show ?case by simp
next
  case (Cons c cs)
  from Cons.prems obtain e r where
    e: "utf8_encode_char c = Some e" and r: "utf8_encode_nat cs = Some r" and ns: "ns = e @ r"
    by (auto split: option.splits)
  show ?case
    unfolding ns using encode_char_bytes[OF e] Cons.IH[OF r] by auto
qed

lemma unat_of_nat_byte: "n < 256 \<Longrightarrow> unat (of_nat n :: byte) = n"
  by (simp add: unat_of_nat)

lemma map_unat_of_nat: "\<forall>b\<in>set ns. b < 256 \<Longrightarrow> map (unat \<circ> (of_nat :: nat \<Rightarrow> byte)) ns = ns"
  by (induction ns) (simp_all add: unat_of_nat_byte)

lemma map_of_nat_unat: "map (of_nat \<circ> unat) bs = (bs :: byte list)"
  by (induction bs) simp_all

lemma utf8_decode_encode: "utf8_decode bs = Inr s \<Longrightarrow> utf8_encode s = Inr bs"
  by (auto simp: utf8_decode_def utf8_encode_def map_of_nat_unat dest: decode_sound
      split: option.splits)

lemma utf8_encode_decode:
  assumes "utf8_encode s = Inr bs"
  shows "utf8_decode bs = Inr s"
proof -
  from assms obtain ns where ns: "utf8_encode_nat s = Some ns" and bs: "bs = map of_nat ns"
    by (auto simp: utf8_encode_def split: option.splits)
  have "map unat bs = ns"
    unfolding bs using map_unat_of_nat[OF encode_nat_bytes[OF ns]] by simp
  then show ?thesis
    using decode_complete[OF ns] by (simp add: utf8_decode_def)
qed

section \<open>The claims\<close>

text \<open>
  C2. The normalizer is total on all strings, the empty one included; its output is the
  input with every maximal run of whitespace replaced by one space and the whitespace at
  both ends removed, that is, the words of the input separated by single spaces; and it
  maps \<^verbatim>\<open>"a   b\n\tc"\<close> to \<^verbatim>\<open>"a b c"\<close>. The three loaders' copies of the method agree.
\<close>

theorem clean_string_normalizes:
  "PdfFileLoader_clean_string s = normalizer_spec s \<and>
   TextFileLoader_clean_string s = normalizer_spec s \<and>
   UrlLoader_clean_string s = normalizer_spec s \<and>
   PdfFileLoader_clean_string [] = [] \<and>
   PdfFileLoader_clean_string (py ''a   b'' @ [0x0A, 0x09] @ py ''c'') = py ''a b c''"
proof -
  have ex: "normalizer_spec (py ''a   b'' @ [0x0A, 0x09] @ py ''c'') = py ''a b c''"
    by (simp add: normalizer_spec_def py_def isspace_def)
  have nil: "normalizer_spec [] = []"
    by (simp add: normalizer_spec_def)
  show ?thesis
    unfolding clean_string_eq strip_re_sub_ws_words normalizer_spec_def [symmetric]
    using ex nil by simp
qed

theorem clean_string_normalizes_witness:
  "TextFileLoader_clean_string ([0x09] @ py '' x  y'' @ [0x3000, 0x0A]) = py ''x y''"
  using clean_string_normalizes [of "[0x09] @ py '' x  y'' @ [0x3000, 0x0A]"]
  by (simp add: normalizer_spec_def py_def isspace_def)

text \<open>
  C3. The normalizer is idempotent: applying \<open>clean_string\<close> twice gives the same string
  as applying it once, for every input and in each of the three loaders.
\<close>

theorem clean_string_idempotent:
  "PdfFileLoader_clean_string (PdfFileLoader_clean_string s) = PdfFileLoader_clean_string s \<and>
   TextFileLoader_clean_string (TextFileLoader_clean_string s) = TextFileLoader_clean_string s \<and>
   UrlLoader_clean_string (UrlLoader_clean_string s) = UrlLoader_clean_string s"
  unfolding clean_string_eq by (simp add: strip_re_sub_ws_idem)

theorem clean_string_idempotent_witness:
  "PdfFileLoader_clean_string (PdfFileLoader_clean_string (py ''  a '' @ [0x0A, 0x0A] @ py ''b  '')) =
   PdfFileLoader_clean_string (py ''  a '' @ [0x0A, 0x0A] @ py ''b  '')"
  using clean_string_idempotent [of "py ''  a '' @ [0x0A, 0x0A] @ py ''b  ''"] by simp

section \<open>The generation adapter\<close>

lemma generate_mcq_eq:
  "generate_mcq w topic num lo diff tmpl kw =
     ([Qna_generate_mcq topic num diff (case tmpl of None \<Rightarrow> default_prompt_template | Some t \<Rightarrow> t)],
      map_sum Propagated id
        (qna_generate_mcq w topic num diff
           (case tmpl of None \<Rightarrow> default_prompt_template | Some t \<Rightarrow> t)))"
  by (simp add: generate_mcq_def Let_def split: sum.splits)

text \<open>
  C8. Without a prompt template (\<open>None\<close>) \<open>generate_mcq\<close> calls the engine with the default
  template, a text that holds the placeholders \<^verbatim>\<open>{num}\<close>, \<^verbatim>\<open>{topic}\<close> and
  \<^verbatim>\<open>{difficulty_level}\<close>; a template the caller supplies goes to the engine unchanged.
\<close>

theorem generate_mcq_template:
  "fst (generate_mcq w topic num lo diff None kw) =
     [Qna_generate_mcq topic num diff default_prompt_template] \<and>
   fst (generate_mcq w topic num lo diff (Some t) kw) = [Qna_generate_mcq topic num diff t] \<and>
   sublist (py ''{num}'') default_prompt_template \<and>
   sublist (py ''{topic}'') default_prompt_template \<and>
   sublist (py ''{difficulty_level}'') default_prompt_template"
proof -
  have 1: "sublist (py ''{num}'') default_prompt_template"
    unfolding default_prompt_template_def sublist_def
    by (intro exI[of _ "py ''\<newline>        Generate ''"]
        exI[of _ "py '' multiple-choice question (MCQ) based on the given topic and level.\<newline>        Provide the question, four answer options, and the correct answer.\<newline>\<newline>        Topic: {topic} \<newline>        Difficulty Level: {difficulty_level}\<newline>        ''"])
      (simp add: py_def)
  have 2: "sublist (py ''{topic}'') default_prompt_template"
    unfolding default_prompt_template_def sublist_def
    by (intro exI[of _ "py ''\<newline>        Generate {num} multiple-choice question (MCQ) based on the given topic and level.\<newline>        Provide the question, four answer options, and the correct answer.\<newline>\<newline>        Topic: ''"]
        exI[of _ "py '' \<newline>        Difficulty Level: {difficulty_level}\<newline>        ''"])
      (simp add: py_def)
  have 3: "sublist (py ''{difficulty_level}'') default_prompt_template"
    unfolding default_prompt_template_def sublist_def
    by (intro exI[of _ "py ''\<newline>        Generate {num} multiple-choice question (MCQ) based on the given topic and level.\<newline>        Provide the question, four answer options, and the correct answer.\<newline>\<newline>        Topic: {topic} \<newline>        Difficulty Level: ''"]
        exI[of _ "py ''\<newline>        ''"])
      (simp add: py_def)
  show ?thesis
    using 1 2 3 by (simp add: generate_mcq_eq)
qed

theorem generate_mcq_template_witness:
  "fst (generate_mcq example_world (py ''Paris'') 1 (Str []) (py ''Easy'') None []) =
     [Qna_generate_mcq (py ''Paris'') 1 (py ''Easy'') default_prompt_template] \<and>
   fst (generate_mcq example_world (py ''Paris'') 1 (Str []) (py ''Easy'') (Some (py ''{topic}?'')) []) =
     [Qna_generate_mcq (py ''Paris'') 1 (py ''Easy'') (py ''{topic}?'')]"
  using generate_mcq_template [of example_world "py ''Paris''" 1 "Str []" "py ''Easy''" "[]" "py ''{topic}?''"]
  by simp

lemma source_type_distinct:
  "py ''text'' \<noteq> py ''pdf''" "py ''url'' \<noteq> py ''pdf''" "py ''url'' \<noteq> py ''text''"
  by (simp_all add: py_def)

lemma file_read_no_ValueError: "file_read f \<noteq> Inl (ValueError m)"
  by (simp add: file_read_def split: source.splits)

lemma utf8_no_ValueError:
  "utf8_decode bs \<noteq> Inl (ValueError m)" "utf8_encode s \<noteq> Inl (ValueError m)"
  by (simp_all add: utf8_decode_def utf8_encode_def split: option.splits)

lemma PdfFileLoader_no_ValueError: "snd (PdfFileLoader_load_data w f) \<noteq> Inl (ValueError m)"
  using file_read_no_ValueError[of f m] utf8_no_ValueError(2)[of _ m]
  by (auto simp: PdfFileLoader_load_data_def Let_def split: sum.splits)

lemma TextFileLoader_no_ValueError: "snd (TextFileLoader_load_data f) \<noteq> Inl (ValueError m)"
  using file_read_no_ValueError[of f m] utf8_no_ValueError[of _ m]
  by (auto simp: TextFileLoader_load_data_def Let_def split: sum.splits)

lemma UrlLoader_no_ValueError: "snd (UrlLoader_load_data w f) \<noteq> Inl (ValueError m)"
  using utf8_no_ValueError(2)[of _ m]
  by (auto simp: UrlLoader_load_data_def Let_def split: sum.splits)

lemma after_load_no_ValueError:
  assumes "snd l \<noteq> Inl (ValueError m)"
  shows "snd (case l of
            (tr, Inl e) \<Rightarrow> (tr, Inl e)
          | (tr, Inr data) \<Rightarrow>
              (if py ''topic'' \<in> set kw then (tr, Inl (TypeError (py ''topic'')))
               else (case generate_mcq w (content data) num lo diff tmpl kw of
                       (tr', res) \<Rightarrow> (tr @ tr', res)))) \<noteq> Inl (ValueError m)"
proof (cases l)
  case (Pair tr r)
  with assms show ?thesis
    by (cases r; cases "qna_generate_mcq w (content (projr r)) num diff
          (case tmpl of None \<Rightarrow> default_prompt_template | Some t \<Rightarrow> t)")
       (simp_all add: generate_mcq_eq)
qed

text \<open>
  C5. With a \<open>source_type\<close> other than \<^verbatim>\<open>'pdf'\<close>, \<^verbatim>\<open>'text'\<close> and \<^verbatim>\<open>'url'\<close>,
  \<open>generate_mcqs_from_data\<close> raises the \<open>ValueError\<close> of the unsupported source type and
  has called neither a loader nor the engine (its trace is empty); with one of the three
  values it does not end with that error.
\<close>

theorem unsupported_source_type_raises:
  "(source_type \<notin> {py ''pdf'', py ''text'', py ''url''} \<longrightarrow>
      generate_mcqs_from_data w source source_type num lo diff tmpl kw =
        ([], Inl (ValueError unsupported_source_type))) \<and>
   (source_type \<in> {py ''pdf'', py ''text'', py ''url''} \<longrightarrow>
      snd (generate_mcqs_from_data w source source_type num lo diff tmpl kw) \<noteq>
        Inl (ValueError unsupported_source_type))"
proof (intro conjI impI)
  assume "source_type \<notin> {py ''pdf'', py ''text'', py ''url''}"
  then show "generate_mcqs_from_data w source source_type num lo diff tmpl kw =
      ([], Inl (ValueError unsupported_source_type))"
    by (simp add: generate_mcqs_from_data_def)
next
  assume "source_type \<in> {py ''pdf'', py ''text'', py ''url''}"
  then consider "source_type = py ''pdf''" | "source_type = py ''text''" | "source_type = py ''url''"
    by blast
  then show "snd (generate_mcqs_from_data w source source_type num lo diff tmpl kw) \<noteq>
      Inl (ValueError unsupported_source_type)"
  proof cases
    case 1
    then show ?thesis
      unfolding generate_mcqs_from_data_def
      using after_load_no_ValueError[OF PdfFileLoader_no_ValueError] by (simp add: Let_def)
  next
    case 2
    then show ?thesis
      unfolding generate_mcqs_from_data_def
      using after_load_no_ValueError[OF TextFileLoader_no_ValueError]
      by (simp add: Let_def source_type_distinct)
  next
    case 3
    then show ?thesis
      unfolding generate_mcqs_from_data_def
      using after_load_no_ValueError[OF UrlLoader_no_ValueError]
      by (simp add: Let_def source_type_distinct)
  qed
qed

theorem unsupported_source_type_raises_witness:
  "generate_mcqs_from_data example_world (UrlStr (py ''x'')) (py ''docx'') 1 (Str []) (py ''Easy'') None [] =
     ([], Inl (ValueError unsupported_source_type)) \<and>
   snd (generate_mcqs_from_data example_world (UrlStr (py ''x'')) (py ''url'') 1 (Str []) (py ''Easy'') None []) \<noteq>
     Inl (ValueError unsupported_source_type)"
  using unsupported_source_type_raises
    [of "py ''docx''" example_world "UrlStr (py ''x'')" 1 "Str []" "py ''Easy''" None "[]"]
    unsupported_source_type_raises
    [of "py ''url''" example_world "UrlStr (py ''x'')" 1 "Str []" "py ''Easy''" None "[]"]
  by (simp add: py_def)

lemma loaders_no_engine_call:
  "filter is_engine_call (fst (PdfFileLoader_load_data w f)) = []"
  "filter is_engine_call (fst (TextFileLoader_load_data f)) = []"
  "filter is_engine_call (fst (UrlLoader_load_data w f)) = []"
  by (auto simp: PdfFileLoader_load_data_def TextFileLoader_load_data_def UrlLoader_load_data_def
      Let_def is_engine_call_def split: sum.splits)

lemma after_load_result:
  assumes "(case l of
              (tr, Inl e) \<Rightarrow> (tr, Inl e)
            | (tr, Inr data) \<Rightarrow>
                (if py ''topic'' \<in> set kw then (tr, Inl (TypeError (py ''topic'')))
                 else (case generate_mcq w (content data) num lo diff tmpl kw of
                         (tr', res) \<Rightarrow> (tr @ tr', res)))) = (tr, Inr result)"
    and "filter is_engine_call (fst l) = []"
  shows "\<exists>topic.
           qna_generate_mcq w topic num diff
             (case tmpl of None \<Rightarrow> default_prompt_template | Some t \<Rightarrow> t) = Inr result \<and>
           filter is_engine_call tr =
             [Qna_generate_mcq topic num diff
                (case tmpl of None \<Rightarrow> default_prompt_template | Some t \<Rightarrow> t)]"
proof (cases l)
  case (Pair ltr r)
  show ?thesis
  proof (cases r)
    case (Inl e)
    with Pair assms(1) show ?thesis by simp
  next
    case (Inr data)
    let ?T = "case tmpl of None \<Rightarrow> default_prompt_template | Some t \<Rightarrow> t"
    from assms(1) Pair Inr have nt: "py ''topic'' \<notin> set kw"
      by (auto split: if_splits)
    from assms(1) Pair Inr nt
    have tr: "tr = ltr @ [Qna_generate_mcq (content data) num diff ?T]"
      and res: "map_sum Propagated id (qna_generate_mcq w (content data) num diff ?T) = Inr result"
      by (simp_all add: generate_mcq_eq)
    from res have "qna_generate_mcq w (content data) num diff ?T = Inr result"
      by (cases "qna_generate_mcq w (content data) num diff ?T") simp_all
    moreover have "filter is_engine_call tr = [Qna_generate_mcq (content data) num diff ?T]"
      using assms(2) Pair by (simp add: tr is_engine_call_def)
    ultimately show ?thesis by blast
  qed
qed

lemma gen_result:
  assumes "generate_mcqs_from_data w source source_type num lo diff tmpl kw = (tr, Inr result)"
  shows "\<exists>topic.
           qna_generate_mcq w topic num diff
             (case tmpl of None \<Rightarrow> default_prompt_template | Some t \<Rightarrow> t) = Inr result \<and>
           filter is_engine_call tr =
             [Qna_generate_mcq topic num diff
                (case tmpl of None \<Rightarrow> default_prompt_template | Some t \<Rightarrow> t)]"
proof -
  define l where "l = (if source_type = py ''pdf'' then PdfFileLoader_load_data w source
            else if source_type = py ''text'' then TextFileLoader_load_data source
            else if source_type = py ''url'' then UrlLoader_load_data w source
            else ([], Inl (ValueError unsupported_source_type)))"
  have 2: "filter is_engine_call (fst l) = []"
    by (simp add: l_def loaders_no_engine_call)
  have 1: "(case l of
              (tr, Inl e) \<Rightarrow> (tr, Inl e)
            | (tr, Inr data) \<Rightarrow>
                (if py ''topic'' \<in> set kw then (tr, Inl (TypeError (py ''topic'')))
                 else (case generate_mcq w (content data) num lo diff tmpl kw of
                         (tr', res) \<Rightarrow> (tr @ tr', res)))) = (tr, Inr result)"
    using assms unfolding generate_mcqs_from_data_def l_def[symmetric] by (simp add: Let_def)
  show ?thesis by (rule after_load_result[OF 1 2])
qed

lemma example_url_content:
  "UrlLoader_clean_string (py ''hi'') = py ''hi''"
  by (simp add: clean_string_eq strip_def rstrip_def isspace_def py_def)

lemma utf8_encode_hi: "utf8_encode (py ''hi'') = Inr [0x68, 0x69]"
  by (simp add: utf8_encode_def utf8_encode_char_def py_def)

lemma example_url_load:
  "UrlLoader_load_data example_world (UrlStr (py ''u'')) =
     ([Requests_get (UrlStr (py ''u'')), Soup_get_text [0x3C, 0x70, 0x3E, 0x68, 0x69]],
      Inr \<lparr>doc_id = hexdigest (sha256 [0x68, 0x69]), content = py ''hi''\<rparr>)"
  by (simp add: UrlLoader_load_data_def example_world_def example_url_content utf8_encode_hi Let_def)

text \<open>
  C7. The generation adapter is a pass-through. \<open>generate_mcq\<close> makes one engine call, with
  the caller's topic, count and difficulty and the template (or the default), and ends as
  that call ends: with the object the engine returned, or with the engine's exception.
  \<open>generate_mcqs_from_data\<close>, once the loader of the source type has returned a record,
  makes that one call on the record's content and ends as the call ends, so what it
  returns is the engine's object itself (of the engine's own type, which the program
  cannot take apart). Hence every object it returns is what the engine returned in the
  only engine call of the run. The extra keyword arguments must not name \<open>topic\<close>, which
  the call already binds.
\<close>

theorem generation_adapter_pass_through:
  fixes w :: "('e, 'r) world"
  shows
  "generate_mcq w topic num lo diff tmpl kw =
     ([Qna_generate_mcq topic num diff (case tmpl of None \<Rightarrow> default_prompt_template | Some t \<Rightarrow> t)],
      map_sum Propagated id (qna_generate_mcq w topic num diff (case tmpl of None \<Rightarrow> default_prompt_template | Some t \<Rightarrow> t))) \<and>
   (py ''topic'' \<notin> set kw \<longrightarrow>
      (PdfFileLoader_load_data w source = (tr, Inr data) \<longrightarrow>
         generate_mcqs_from_data w source (py ''pdf'') num lo diff tmpl kw =
           (tr @ [Qna_generate_mcq (content data) num diff (case tmpl of None \<Rightarrow> default_prompt_template | Some t \<Rightarrow> t)],
            map_sum Propagated id (qna_generate_mcq w (content data) num diff (case tmpl of None \<Rightarrow> default_prompt_template | Some t \<Rightarrow> t)))) \<and>
      ((TextFileLoader_load_data source :: ('e, document) run) = (tr, Inr data) \<longrightarrow>
         generate_mcqs_from_data w source (py ''text'') num lo diff tmpl kw =
           (tr @ [Qna_generate_mcq (content data) num diff (case tmpl of None \<Rightarrow> default_prompt_template | Some t \<Rightarrow> t)],
            map_sum Propagated id (qna_generate_mcq w (content data) num diff (case tmpl of None \<Rightarrow> default_prompt_template | Some t \<Rightarrow> t)))) \<and>
      (UrlLoader_load_data w source = (tr, Inr data) \<longrightarrow>
         generate_mcqs_from_data w source (py ''url'') num lo diff tmpl kw =
           (tr @ [Qna_generate_mcq (content data) num diff (case tmpl of None \<Rightarrow> default_prompt_template | Some t \<Rightarrow> t)],
            map_sum Propagated id (qna_generate_mcq w (content data) num diff (case tmpl of None \<Rightarrow> default_prompt_template | Some t \<Rightarrow> t))))) \<and>
   (\<forall>tr result.
      generate_mcqs_from_data w source source_type num lo diff tmpl kw = (tr, Inr result) \<longrightarrow>
      (\<exists>content.
         qna_generate_mcq w content num diff (case tmpl of None \<Rightarrow> default_prompt_template | Some t \<Rightarrow> t) = Inr result \<and>
         filter is_engine_call tr = [Qna_generate_mcq content num diff (case tmpl of None \<Rightarrow> default_prompt_template | Some t \<Rightarrow> t)]))"
proof -
  have pdf: "generate_mcqs_from_data w source (py ''pdf'') num lo diff tmpl kw =
      (tr @ [Qna_generate_mcq (content data) num diff (case tmpl of None \<Rightarrow> default_prompt_template | Some t \<Rightarrow> t)],
       map_sum Propagated id (qna_generate_mcq w (content data) num diff (case tmpl of None \<Rightarrow> default_prompt_template | Some t \<Rightarrow> t)))"
    if "py ''topic'' \<notin> set kw" "PdfFileLoader_load_data w source = (tr, Inr data)" for tr data
    unfolding generate_mcqs_from_data_def using that by (simp add: generate_mcq_eq Let_def)
  have tx: "generate_mcqs_from_data w source (py ''text'') num lo diff tmpl kw =
      (tr @ [Qna_generate_mcq (content data) num diff (case tmpl of None \<Rightarrow> default_prompt_template | Some t \<Rightarrow> t)],
       map_sum Propagated id (qna_generate_mcq w (content data) num diff (case tmpl of None \<Rightarrow> default_prompt_template | Some t \<Rightarrow> t)))"
    if "py ''topic'' \<notin> set kw" "(TextFileLoader_load_data source :: ('e, document) run) = (tr, Inr data)"
    for tr data
    unfolding generate_mcqs_from_data_def using that by (simp add: generate_mcq_eq Let_def source_type_distinct)
  have url: "generate_mcqs_from_data w source (py ''url'') num lo diff tmpl kw =
      (tr @ [Qna_generate_mcq (content data) num diff (case tmpl of None \<Rightarrow> default_prompt_template | Some t \<Rightarrow> t)],
       map_sum Propagated id (qna_generate_mcq w (content data) num diff (case tmpl of None \<Rightarrow> default_prompt_template | Some t \<Rightarrow> t)))"
    if "py ''topic'' \<notin> set kw" "UrlLoader_load_data w source = (tr, Inr data)" for tr data
    unfolding generate_mcqs_from_data_def using that by (simp add: generate_mcq_eq Let_def source_type_distinct)
  show ?thesis
    using gen_result[of w source source_type num lo diff tmpl kw] pdf tx url
    by (simp add: generate_mcq_eq)
qed

theorem generation_adapter_pass_through_witness:
  "generate_mcqs_from_data example_world (UrlStr (py ''u'')) (py ''url'') 1 (Str []) (py ''Easy'') None [] =
     ([Requests_get (UrlStr (py ''u'')), Soup_get_text [0x3C, 0x70, 0x3E, 0x68, 0x69],
       Qna_generate_mcq (py ''hi'') 1 (py ''Easy'') default_prompt_template],
      Inr [\<lparr>question = py ''hi'', options = [py ''w'', py ''x'', py ''y'', py ''z''],
            correct_answer = py ''x''\<rparr>])"
  using generation_adapter_pass_through
    [where w = example_world and source = "UrlStr (py ''u'')" and num = 1 and lo = "Str []"
       and diff = "py ''Easy''" and tmpl = None and kw = "[]"
       and tr = "[Requests_get (UrlStr (py ''u'')), Soup_get_text [0x3C, 0x70, 0x3E, 0x68, 0x69]]"
       and data = "\<lparr>doc_id = hexdigest (sha256 [0x68, 0x69]), content = py ''hi''\<rparr>"]
  by (simp add: example_url_load) (simp add: example_world_def)

section \<open>The formatter\<close>

lemma format_options_loop_ok:
  "opts = [] \<or> 96 + j + length opts \<le> 0x110000 \<Longrightarrow>
   format_options_loop j opts out =
     Some (out @ concat (map (\<lambda>(j, opt). option_line j opt) (List.enumerate j opts)))"
proof (induction opts arbitrary: j out)
  case Nil
  show ?case by simp
next
  case (Cons opt rest)
  then have b: "96 + j < 0x110000" and r: "rest = [] \<or> 96 + (Suc j) + length rest \<le> 0x110000"
    by auto
  show ?case
    using b Cons.IH[OF r, of "out @ py ''   '' @ [96 + j] @ py '') '' @ opt @ py ''\<newline>''"]
    by (simp add: chr_py_def option_line_def)
qed

lemma format_options_loop_fail:
  "opts \<noteq> [] \<Longrightarrow> \<not> 96 + j + length opts \<le> 0x110000 \<Longrightarrow>
   format_options_loop j opts out = None"
proof (induction opts arbitrary: j out)
  case Nil
  then show ?case by simp
next
  case (Cons opt rest)
  show ?case
  proof (cases "96 + j < 0x110000")
    case False
    then show ?thesis by (simp add: chr_py_def)
  next
    case True
    with Cons.prems have r: "rest \<noteq> []" "\<not> 96 + (Suc j) + length rest \<le> 0x110000"
      by auto
    show ?thesis
      using True Cons.IH[OF r] by (simp add: chr_py_def)
  qed
qed

lemma format_mcqs_loop_eq:
  "format_mcqs_loop i qs out =
     (if \<forall>q\<in>set qs. length (options q) < 1114016
      then Some (out @ concat (map (\<lambda>(i, q). render_question i q) (List.enumerate i qs)))
      else None)"
proof (induction qs arbitrary: i out)
  case Nil
  show ?case by simp
next
  case (Cons q rest)
  show ?case
  proof (cases "length (options q) < 1114016")
    case True
    then have "options q = [] \<or> 96 + 1 + length (options q) \<le> 0x110000" by simp
    from format_options_loop_ok[OF this]
    have step: "format_mcqs_loop i (q # rest) out =
        format_mcqs_loop (Suc i) rest (out @ render_question i q)"
      by (simp add: render_question_def py_def)
    show ?thesis
      unfolding step Cons.IH using True by simp
  next
    case False
    then have "options q \<noteq> []" "\<not> 96 + 1 + length (options q) \<le> 0x110000" by auto
    from format_options_loop_fail[OF this]
    show ?thesis using False by simp
  qed
qed

lemma format_mcqs_eq:
  "format_mcqs qs =
     (if \<forall>q\<in>set qs. length (options q) < 1114016 then Inr (render_mcqs qs)
      else Inl (ValueError chr_range_message))"
  using format_mcqs_loop_eq[of 1 qs "[]"] by (simp add: format_mcqs_def render_mcqs_def)

lemma str_nat_1: "str_nat (Suc 0) = py ''1''"
  by (simp add: str_nat.simps[of "Suc 0"] py_def)

lemma format_mcqs_too_many:
  "1114016 \<le> length (options q) \<Longrightarrow>
   (format_mcqs [q] :: 'e error + pystr) = Inl (ValueError chr_range_message)"
  by (simp add: format_mcqs_eq)

text \<open>
  C9, as the specification states it, does not hold for every list of questions: a
  question with 1114016 options makes \<open>chr\<close> raise, and the 27th option of a question is
  labelled \<open>{\<close>, which is no letter.
\<close>

theorem format_mcqs_chr_range:
  "(format_mcqs [\<lparr>question = py ''Q'', options = replicate 1114016 (py ''o''),
                  correct_answer = py ''o''\<rparr>] :: unit error + pystr) =
     Inl (ValueError chr_range_message) \<and>
   (format_mcqs [\<lparr>question = [], options =
                 [[], [], [], [], [], [], [], [], [], [], [], [], [], [], [], [], [],
                 [], [], [], [], [], [], [], [], [], []], correct_answer = []\<rparr>]
      :: unit error + pystr) =
     Inr (py ''1. \<newline>   a) \<newline>   b) \<newline>   c) \<newline>   d) \<newline>   e) \<newline>   f) \<newline>   g) \<newline>   h) \<newline>   i) \<newline>   j) \<newline>   k) \<newline>   l) \<newline>   m) \<newline>   n) \<newline>   o) \<newline>   p) \<newline>   q) \<newline>   r) \<newline>   s) \<newline>   t) \<newline>   u) \<newline>   v) \<newline>   w) \<newline>   x) \<newline>   y) \<newline>   z) \<newline>   {) \<newline>   Answer: \<newline>\<newline>'')"
proof -
  have "(format_mcqs [\<lparr>question = py ''Q'', options = replicate 1114016 (py ''o''),
                  correct_answer = py ''o''\<rparr>] :: unit error + pystr) =
     Inl (ValueError chr_range_message)"
    by (rule format_mcqs_too_many) (simp only: MCQ.select_convs length_replicate order_refl)
  moreover have "(format_mcqs [\<lparr>question = [], options =
                 [[], [], [], [], [], [], [], [], [], [], [], [], [], [], [], [], [],
                 [], [], [], [], [], [], [], [], [], []], correct_answer = []\<rparr>]
      :: unit error + pystr) =
     Inr (py ''1. \<newline>   a) \<newline>   b) \<newline>   c) \<newline>   d) \<newline>   e) \<newline>   f) \<newline>   g) \<newline>   h) \<newline>   i) \<newline>   j) \<newline>   k) \<newline>   l) \<newline>   m) \<newline>   n) \<newline>   o) \<newline>   p) \<newline>   q) \<newline>   r) \<newline>   s) \<newline>   t) \<newline>   u) \<newline>   v) \<newline>   w) \<newline>   x) \<newline>   y) \<newline>   z) \<newline>   {) \<newline>   Answer: \<newline>\<newline>'')"
    by (simp add: format_mcqs_eq render_mcqs_def render_question_def option_line_def str_nat_1 py_def)
  ultimately show ?thesis
    by simp
qed

text \<open>
  C9, amended. For every list of questions in which each question has fewer than 1114016
  options, \<open>format_mcqs\<close> returns the questions in order, each as its number (from 1),
  a full stop and the question text on one line, then one line per option in option
  order, labelled with the character of code point 96 plus the option's position (the
  letters \<open>a\<close> to \<open>z\<close> for the first 26 options), then the line \<open>Answer:\<close> with the field
  \<open>correct_answer\<close>, then an empty line. With a question of 1114016 or more options it
  raises the \<open>ValueError\<close> of \<open>chr\<close>.
\<close>

theorem format_mcqs_renders:
  "(format_mcqs qs :: 'e error + pystr) =
     (if \<forall>q\<in>set qs. length (options q) < 1114016 then Inr (render_mcqs qs)
      else Inl (ValueError chr_range_message)) \<and>
   map (\<lambda>j. 96 + j) [1..<27] = py ''abcdefghijklmnopqrstuvwxyz''"
proof -
  have "map (\<lambda>j. 96 + j) [1..<27] = py ''abcdefghijklmnopqrstuvwxyz''"
    by code_simp
  then show ?thesis
    using format_mcqs_eq[of qs] by simp
qed

theorem format_mcqs_renders_witness:
  "format_mcqs [\<lparr>question = py ''Q?'', options = [py ''w'', py ''x''], correct_answer = py ''x''\<rparr>] =
     (Inr (py ''1. Q?\<newline>   a) w\<newline>   b) x\<newline>   Answer: x\<newline>\<newline>'') :: unit error + pystr)"
  using format_mcqs_renders
    [where 'e = unit, of "[\<lparr>question = py ''Q?'', options = [py ''w'', py ''x''], correct_answer = py ''x''\<rparr>]"]
  by (simp add: render_mcqs_def render_question_def option_line_def str_nat_1 py_def)

section \<open>The presentation layer\<close>

lemma learning_objective_unbound: "''learning_objective'' \<notin> set module_globals"
  by (simp add: module_globals_def)

text \<open>
  C10. In the URL branch of \<open>main\<close> the call of \<open>generate_mcqs_from_data\<close> reads the name
  \<open>learning_objective\<close>, which \<open>main\<close> never assigns and the module never binds. With no
  built-in of that name, pressing the button on a non-empty URL ends the run with a
  \<open>NameError\<close> before any loader, the engine or \<open>st.text\<close> is called; without the button
  or the URL nothing is generated either. So no run with the source type \<open>url\<close> shows
  questions.
\<close>

theorem url_branch_never_renders:
  assumes "selectbox_source_type u = py ''url''"
    and "''learning_objective'' \<notin> set (py_builtins w)"
  shows "fst (main w u) = main_setup u \<and>
         (text_input_url u \<noteq> [] \<and> button u \<longrightarrow>
            snd (main w u) = Inl (NameError (py ''learning_objective''))) \<and>
         (text_input_url u = [] \<or> \<not> button u \<longrightarrow> snd (main w u) = Inr ()) \<and>
         (\<forall>t. St_text t \<notin> set (fst (main w u)))"
proof -
  have lk: "py_lookup w ''learning_objective'' = Inl (NameError (py ''learning_objective''))"
    using assms(2) learning_objective_unbound by (simp add: py_lookup_def)
  have m: "main w u =
      (main_setup u,
       if text_input_url u \<noteq> [] \<and> button u then Inl (NameError (py ''learning_objective''))
       else Inr ())"
    using assms(1) by (simp add: main_def Let_def source_type_distinct lk)
  have "St_text t \<notin> set (main_setup u)" for t
    by (simp add: main_setup_def split: option.splits)
  with m show ?thesis by auto
qed

theorem url_branch_never_renders_witness:
  "fst (main example_world
          \<lparr>getenv_api_key = None, selectbox_source_type = py ''url'', number_input_num_mcqs = 5,
           selectbox_difficulty_level = py ''Easy'', file_uploader = None,
           text_input_url = py ''https://example.org'', button = True\<rparr>) =
     [St_title (py ''MCQ Generator using Educhain'')] \<and>
   snd (main example_world
          \<lparr>getenv_api_key = None, selectbox_source_type = py ''url'', number_input_num_mcqs = 5,
           selectbox_difficulty_level = py ''Easy'', file_uploader = None,
           text_input_url = py ''https://example.org'', button = True\<rparr>) =
     Inl (NameError (py ''learning_objective''))"
  using url_branch_never_renders
    [of "\<lparr>getenv_api_key = None, selectbox_source_type = py ''url'', number_input_num_mcqs = 5,
           selectbox_difficulty_level = py ''Easy'', file_uploader = None,
           text_input_url = py ''https://example.org'', button = True\<rparr>" example_world]
  by (simp add: example_world_def main_setup_def py_def)

section \<open>The fingerprint\<close>

lemma fingerprint_encode:
  "utf8_encode s = (Inr enc :: 'e error + byte list) \<Longrightarrow>
   fingerprint s = Some (hexdigest (sha256 enc))"
  by (auto simp: utf8_encode_def fingerprint_def split: option.splits)

lemma utf8_encode_fingerprint:
  "(utf8_encode s :: 'e error + byte list) =
     (case utf8_encode_nat s of None \<Rightarrow> Inl UnicodeEncodeError | Some ns \<Rightarrow> Inr (map of_nat ns))"
  by (simp add: utf8_encode_def)

lemma PdfFileLoader_fingerprint:
  "snd (PdfFileLoader_load_data w src) = Inr d \<Longrightarrow> fingerprint (content d) = Some (doc_id d)"
  by (auto simp: PdfFileLoader_load_data_def Let_def dest: fingerprint_encode split: sum.splits)

lemma TextFileLoader_fingerprint:
  "snd (TextFileLoader_load_data src :: ('e, document) run) = Inr d \<Longrightarrow>
   fingerprint (content d) = Some (doc_id d)"
  by (auto simp: TextFileLoader_load_data_def Let_def dest: fingerprint_encode split: sum.splits)

lemma UrlLoader_fingerprint:
  "snd (UrlLoader_load_data w src) = Inr d \<Longrightarrow> fingerprint (content d) = Some (doc_id d)"
  by (auto simp: UrlLoader_load_data_def Let_def dest: fingerprint_encode split: sum.splits)

lemma loader_returns_fingerprint:
  "loader_returns w src d \<Longrightarrow> fingerprint (content d) = Some (doc_id d)"
  unfolding loader_returns_def
  using PdfFileLoader_fingerprint TextFileLoader_fingerprint UrlLoader_fingerprint by blast

text \<open>
  C4. Whenever one of the three loaders returns a record, its \<open>doc_id\<close> is the hexadecimal
  SHA-256 digest of the UTF-8 encoding of its \<open>content\<close>; so two records with the same
  content, from whichever loaders, worlds and inputs, have the same \<open>doc_id\<close>.
\<close>

theorem doc_id_is_fingerprint:
  assumes "loader_returns w src d" and "loader_returns w' src' d'"
  shows "fingerprint (content d) = Some (doc_id d) \<and>
         (content d = content d' \<longrightarrow> doc_id d = doc_id d')"
  using loader_returns_fingerprint[OF assms(1)] loader_returns_fingerprint[OF assms(2)]
  by auto

theorem doc_id_is_fingerprint_witness:
  "loader_returns example_world (UrlStr (py ''u''))
     \<lparr>doc_id = hexdigest (sha256 [0x68, 0x69]), content = py ''hi''\<rparr> \<and>
   fingerprint (py ''hi'') = Some (hexdigest (sha256 [0x68, 0x69]))"
  using doc_id_is_fingerprint
    [of example_world "UrlStr (py ''u'')"
        "\<lparr>doc_id = hexdigest (sha256 [0x68, 0x69]), content = py ''hi''\<rparr>"
        example_world "UrlStr (py ''u'')"
        "\<lparr>doc_id = hexdigest (sha256 [0x68, 0x69]), content = py ''hi''\<rparr>"]
  by (simp add: loader_returns_def example_url_load)


section \<open>The text loader\<close>

lemma valid_utf8_iff: "valid_utf8 bs \<longleftrightarrow> utf8_decode_nat (map unat bs) \<noteq> None"
proof
  assume "valid_utf8 bs"
  then obtain t ns where ns: "utf8_encode_nat t = Some ns" and bs: "bs = map of_nat ns"
    by (auto simp: valid_utf8_def)
  have "map unat bs = ns"
    unfolding bs using map_unat_of_nat[OF encode_nat_bytes[OF ns]] by simp
  with decode_complete[OF ns] show "utf8_decode_nat (map unat bs) \<noteq> None"
    by simp
next
  assume "utf8_decode_nat (map unat bs) \<noteq> None"
  then obtain s where "utf8_decode_nat (map unat bs) = Some s"
    by auto
  from decode_sound[OF this] have "map_option (map of_nat) (utf8_encode_nat s) = Some bs"
    using map_of_nat_unat[of bs] by simp
  then show "valid_utf8 bs"
    unfolding valid_utf8_def by blast
qed

lemma encode_nat_chars:
  "utf8_encode_nat s \<noteq> None \<longleftrightarrow> (\<forall>c\<in>set s. utf8_encode_char c \<noteq> None)"
  by (induction s) (auto split: option.splits)

lemma set_re_sub_ws: "set (re_sub_ws s) \<subseteq> insert 0x20 (set s)"
  by (induction s rule: re_sub_ws.induct) (auto dest: set_dropWhileD)

lemma set_strip: "set (strip s) \<subseteq> set s"
proof
  fix x
  assume "x \<in> set (strip s)"
  then have "x \<in> set (dropWhile isspace (rev (dropWhile isspace s)))"
    by (simp add: strip_def rstrip_def)
  then have "x \<in> set (dropWhile isspace s)"
    by (auto dest: set_dropWhileD)
  then show "x \<in> set s"
    by (rule set_dropWhileD)
qed

lemma clean_encodable:
  assumes "utf8_encode_nat s \<noteq> None"
  shows "utf8_encode_nat (strip (re_sub_ws s)) \<noteq> None"
proof -
  have sp: "utf8_encode_char 0x20 \<noteq> None"
    by (simp add: utf8_encode_char_def)
  have "set (strip (re_sub_ws s)) \<subseteq> insert 0x20 (set s)"
    using set_strip[of "re_sub_ws s"] set_re_sub_ws[of s] by blast
  with assms sp show ?thesis
    unfolding encode_nat_chars by blast
qed

lemma fingerprint_None: "fingerprint s = None \<longleftrightarrow> utf8_encode_nat s = None"
  by (simp add: fingerprint_def)

text \<open>
  C6. The text loader decodes the bytes it reads as UTF-8. If they are well-formed, that
  is, the encoding of some text, the loader returns the normalized text with its
  fingerprint; no later step fails. If they are not, it ends with \<open>UnicodeDecodeError\<close>
  and returns no record.
\<close>

theorem text_loader_decodes:
  "(valid_utf8 bs \<longrightarrow>
      (\<exists>text d.
         utf8_encode_nat text = Some (map unat bs) \<and>
         fingerprint (TextFileLoader_clean_string text) = Some d \<and>
         (TextFileLoader_load_data (FileObj bs) :: ('e, document) run) =
           ([], Inr \<lparr>doc_id = d, content = TextFileLoader_clean_string text\<rparr>))) \<and>
   (\<not> valid_utf8 bs \<longrightarrow>
      (TextFileLoader_load_data (FileObj bs) :: ('e, document) run) = ([], Inl UnicodeDecodeError))"
proof (intro conjI impI)
  assume "valid_utf8 bs"
  then obtain t where dec: "utf8_decode_nat (map unat bs) = Some t"
    unfolding valid_utf8_iff by auto
  have enc: "utf8_encode_nat t = Some (map unat bs)"
    by (rule decode_sound[OF dec])
  then have "utf8_encode_nat (strip (re_sub_ws t)) \<noteq> None"
    by (intro clean_encodable) simp
  then obtain ns where ns: "utf8_encode_nat (TextFileLoader_clean_string t) = Some ns"
    by (auto simp: clean_string_eq)
  have "fingerprint (TextFileLoader_clean_string t) = Some (hexdigest (sha256 (map of_nat ns)))"
    by (simp add: fingerprint_def ns)
  moreover have "(TextFileLoader_load_data (FileObj bs) :: ('e, document) run) =
      ([], Inr \<lparr>doc_id = hexdigest (sha256 (map of_nat ns)),
                 content = TextFileLoader_clean_string t\<rparr>)"
    by (simp add: TextFileLoader_load_data_def file_read_def utf8_decode_def dec
        utf8_encode_def ns Let_def)
  ultimately show "\<exists>text d.
         utf8_encode_nat text = Some (map unat bs) \<and>
         fingerprint (TextFileLoader_clean_string text) = Some d \<and>
         (TextFileLoader_load_data (FileObj bs) :: ('e, document) run) =
           ([], Inr \<lparr>doc_id = d, content = TextFileLoader_clean_string text\<rparr>)"
    using enc by blast
next
  assume "\<not> valid_utf8 bs"
  then have "utf8_decode_nat (map unat bs) = None"
    unfolding valid_utf8_iff by simp
  then show "(TextFileLoader_load_data (FileObj bs) :: ('e, document) run) =
      ([], Inl UnicodeDecodeError)"
    by (simp add: TextFileLoader_load_data_def file_read_def utf8_decode_def)
qed

lemma decode_hi: "utf8_decode_nat [0x68, 0x69, 0x0A] = Some (py ''hi\<newline>'')"
  by (simp add: utf8_decode_nat_step py_def)

lemma decode_FF: "utf8_decode_nat [0x68, 0xFF] = None"
  by (simp add: utf8_decode_nat_step)

lemma clean_hi: "TextFileLoader_clean_string (py ''hi\<newline>'') = py ''hi''"
  by (simp add: clean_string_eq strip_def rstrip_def isspace_def py_def)

theorem text_loader_decodes_witness:
  "(TextFileLoader_load_data (FileObj [0x68, 0x69, 0x0A]) :: (unit, document) run) =
     ([], Inr \<lparr>doc_id = hexdigest (sha256 [0x68, 0x69]), content = py ''hi''\<rparr>) \<and>
   (TextFileLoader_load_data (FileObj [0x68, 0xFF]) :: (unit, document) run) =
     ([], Inl UnicodeDecodeError)"
proof -
  have v: "valid_utf8 [0x68, 0x69, 0x0A]"
    by (simp add: valid_utf8_iff decode_hi)
  have n: "\<not> valid_utf8 [0x68, 0xFF]"
    by (simp add: valid_utf8_iff decode_FF)
  from text_loader_decodes[where 'e = unit, of "[0x68, 0x69, 0x0A]"] v
  obtain t d where
    enc: "utf8_encode_nat t = Some [0x68, 0x69, 0x0A]" and
    fp: "fingerprint (TextFileLoader_clean_string t) = Some d" and
    ld: "(TextFileLoader_load_data (FileObj [0x68, 0x69, 0x0A]) :: (unit, document) run) =
           ([], Inr \<lparr>doc_id = d, content = TextFileLoader_clean_string t\<rparr>)"
    by auto
  from decode_complete[OF enc] have t: "t = py ''hi\<newline>''"
    by (simp add: decode_hi)
  have "fingerprint (py ''hi'') = Some (hexdigest (sha256 [0x68, 0x69]))"
    by (simp add: fingerprint_def utf8_encode_char_def py_def)
  with fp have d: "d = hexdigest (sha256 [0x68, 0x69])"
    by (simp add: t clean_hi)
  from text_loader_decodes[where 'e = unit, of "[0x68, 0xFF]"] n
  have "(TextFileLoader_load_data (FileObj [0x68, 0xFF]) :: (unit, document) run) =
      ([], Inl UnicodeDecodeError)"
    by simp
  with ld show ?thesis
    by (simp add: d t clean_hi)
qed


section \<open>The PDF loader\<close>












end
